theory Spec2Isabelle
  imports Main
begin

section \<open>Values of the configuration document\<close>

text \<open>
  The configuration file \<^verbatim>\<open>.vscode/contexts.json\<close> is read with \<^verbatim>\<open>JSON.parse\<close> and then
  used as a value of type \<^verbatim>\<open>any\<close>. A parsed value is one of the six JSON kinds. An object
  is the list of its own properties in enumeration order (the order of \<^verbatim>\<open>for ... in\<close>).
  A string is its UTF-8 bytes. A number is kept as the text that \<^verbatim>\<open>JSON.stringify\<close> prints
  for it (\<^verbatim>\<open>0\<close> for both zeros, \<^verbatim>\<open>1e+21\<close>, \<^verbatim>\<open>0.5\<close>): the program only tests numbers for
  truthiness and prints them. A number literal beyond the range of a double parses to
  \<^verbatim>\<open>Infinity\<close>, which is no JSON value; documents with such literals are outside this type.
\<close>

datatype json =
    JNull
  | JBool bool
  | JNum string
  | JStr string
  | JArr "json list"
  | JObj "(string \<times> json) list"

datatype error = TypeError | SyntaxError string

text \<open>
  What an expression can evaluate to: \<^verbatim>\<open>undefined\<close>, a JSON value, or a member inherited
  from a built-in prototype (a function, or the prototype object itself), of which the
  program only ever tests the truthiness.
\<close>

datatype jsval = Undefined | Val json | Builtin

fun truthy :: "jsval \<Rightarrow> bool" where
  "truthy Undefined = False"
| "truthy Builtin = True"
| "truthy (Val JNull) = False"
| "truthy (Val (JBool b)) = b"
| "truthy (Val (JNum t)) = (t \<noteq> ''0'')"
| "truthy (Val (JStr s)) = (s \<noteq> [])"
| "truthy (Val (JArr xs)) = True"
| "truthy (Val (JObj ps)) = True"

subsection \<open>Decimal index keys\<close>

definition digit_char :: "nat \<Rightarrow> char" where
  "digit_char d = char_of (48 + d)"

fun show_nat :: "nat \<Rightarrow> string" where
  "show_nat n = (if n < 10 then [digit_char n] else show_nat (n div 10) @ [digit_char (n mod 10)])"

declare show_nat.simps [simp del]

definition index_keys :: "nat \<Rightarrow> string list" where
  "index_keys n = map show_nat [0..<n]"

definition index_of_key :: "nat \<Rightarrow> string \<Rightarrow> nat option" where
  "index_of_key n k = find (\<lambda>i. show_nat i = k) [0..<n]"

subsection \<open>Code points and code units of a string\<close>

text \<open>
  \<^verbatim>\<open>for ... of\<close> over a string yields its code points; \<^verbatim>\<open>length\<close> and the index keys count
  UTF-16 code units. A code point of four UTF-8 bytes is two code units, a surrogate pair;
  a single surrogate is written in the three bytes that the encoding scheme gives its number.
\<close>

definition isContinuation :: "char \<Rightarrow> bool" where
  "isContinuation c = ((of_char c :: nat) div 64 = 2)"

definition codePoints :: "string \<Rightarrow> string list" where
  "codePoints s =
     (case foldr (\<lambda>c (pending, out).
                    if isContinuation c then (c # pending, out) else ([], (c # pending) # out))
                 s ([], []) of
        (pending, out) \<Rightarrow> if pending = [] then out else pending # out)"

definition threeBytes :: "nat \<Rightarrow> string" where
  "threeBytes u = [char_of (224 + u div 4096), char_of (128 + (u div 64) mod 64), char_of (128 + u mod 64)]"

definition surrogates :: "string \<Rightarrow> string list" where
  "surrogates cp =
     (let b = map (\<lambda>c. (of_char c :: nat)) cp;
          n = ((b ! 0) mod 8) * 262144 + ((b ! 1) mod 64) * 4096 + ((b ! 2) mod 64) * 64 + (b ! 3) mod 64;
          v = n - 65536
      in [threeBytes (55296 + v div 1024), threeBytes (56320 + v mod 1024)])"

definition codeUnits :: "string \<Rightarrow> string list" where
  "codeUnits s = concat (map (\<lambda>cp. if length cp = 4 then surrogates cp else [cp]) (codePoints s))"

subsection \<open>Property access, enumeration and iteration\<close>

text \<open>
  The members that every value inherits from \<^verbatim>\<open>Object.prototype\<close>. The further members of
  the prototypes of arrays, strings and numbers (\<^verbatim>\<open>push\<close>, \<^verbatim>\<open>charAt\<close>, \<^verbatim>\<open>toFixed\<close>, ...)
  differ between engine versions and are not listed.
\<close>

definition objectPrototypeNames :: "string list" where
  "objectPrototypeNames =
     [''constructor'', ''__defineGetter__'', ''__defineSetter__'', ''hasOwnProperty'',
      ''__lookupGetter__'', ''__lookupSetter__'', ''isPrototypeOf'', ''propertyIsEnumerable'',
      ''toString'', ''valueOf'', ''__proto__'', ''toLocaleString'']"

definition inherited :: "string \<Rightarrow> jsval" where
  "inherited k = (if k \<in> set objectPrototypeNames then Builtin else Undefined)"

text \<open>
  \<^verbatim>\<open>v[k]\<close> and \<^verbatim>\<open>v.k\<close>: reading a property of \<^verbatim>\<open>null\<close> or \<^verbatim>\<open>undefined\<close> throws a
  TypeError; an object gives its own property; an array or a string gives the element at an
  index key, and its \<^verbatim>\<open>length\<close>; otherwise the inherited member, or \<^verbatim>\<open>undefined\<close>.
  The program reads no property of an inherited member: the functions below apply
  \<open>getProp\<close> to the parsed value and to its \<^verbatim>\<open>configs\<close>, \<^verbatim>\<open>contexts\<close> and \<^verbatim>\<open>notes\<close> only, and
  the equation for \<open>Builtin\<close> gives what \<^verbatim>\<open>Object.prototype\<close> provides.
\<close>

definition propOf :: "(string \<times> json) list \<Rightarrow> string \<Rightarrow> jsval" where
  "propOf ps k = (case map_of ps k of Some v \<Rightarrow> Val v | None \<Rightarrow> inherited k)"

fun getProp :: "jsval \<Rightarrow> string \<Rightarrow> error + jsval" where
  "getProp Undefined k = Inl TypeError"
| "getProp (Val JNull) k = Inl TypeError"
| "getProp Builtin k = Inr (inherited k)"
| "getProp (Val (JObj ps)) k = Inr (propOf ps k)"
| "getProp (Val (JArr xs)) k =
     (if k = ''length'' then Inr (Val (JNum (show_nat (length xs))))
      else case index_of_key (length xs) k of
             None \<Rightarrow> Inr (inherited k)
           | Some i \<Rightarrow> Inr (Val (xs ! i)))"
| "getProp (Val (JStr s)) k =
     (if k = ''length'' then Inr (Val (JNum (show_nat (length (codeUnits s)))))
      else case index_of_key (length (codeUnits s)) k of
             None \<Rightarrow> Inr (inherited k)
           | Some i \<Rightarrow> Inr (Val (JStr (codeUnits s ! i))))"
| "getProp (Val (JBool b)) k = Inr (inherited k)"
| "getProp (Val (JNum t)) k = Inr (inherited k)"

text \<open>\<^verbatim>\<open>for (const k in v)\<close>: the enumerable keys; none for a value that has none.\<close>

fun keys_in :: "jsval \<Rightarrow> string list" where
  "keys_in (Val (JObj ps)) = map fst ps"
| "keys_in (Val (JArr xs)) = index_keys (length xs)"
| "keys_in (Val (JStr s)) = index_keys (length (codeUnits s))"
| "keys_in _ = []"

text \<open>\<^verbatim>\<open>for (const x of v)\<close>: only arrays and strings are iterable.\<close>

fun iterate :: "jsval \<Rightarrow> error + json list" where
  "iterate (Val (JArr xs)) = Inr xs"
| "iterate (Val (JStr s)) = Inr (map JStr (codePoints s))"
| "iterate _ = Inl TypeError"

section \<open>The path library (POSIX flavour)\<close>

text \<open>
  The program uses \<^verbatim>\<open>path.sep\<close>, \<^verbatim>\<open>path.join\<close>, \<^verbatim>\<open>path.basename\<close>, \<^verbatim>\<open>path.extname\<close> and
  \<^verbatim>\<open>path.relative\<close> of the platform. They are modelled as on a POSIX host, where the
  separator is \<^verbatim>\<open>/\<close>.
\<close>

definition sep :: char where
  "sep = CHR ''/''"

text \<open>\<^verbatim>\<open>s.split(path.sep)\<close>: never empty; the empty string gives one empty part.\<close>

fun split_sep :: "string \<Rightarrow> string list" where
  "split_sep [] = [[]]"
| "split_sep (c # cs) =
     (if c = sep then [] # split_sep cs
      else case split_sep cs of
             [] \<Rightarrow> [[c]]
           | p # ps \<Rightarrow> (c # p) # ps)"

fun join_sep :: "string list \<Rightarrow> string" where
  "join_sep [] = []"
| "join_sep [p] = p"
| "join_sep (p # ps) = p @ sep # join_sep ps"

text \<open>
  The segment walk of \<^verbatim>\<open>normalizeString\<close>: empty and \<^verbatim>\<open>.\<close> segments are dropped, \<^verbatim>\<open>..\<close>
  removes the segment before it, or is kept when the path may climb up its start.
\<close>

fun normalizeSegments :: "bool \<Rightarrow> string list \<Rightarrow> string list \<Rightarrow> string list" where
  "normalizeSegments up acc [] = acc"
| "normalizeSegments up acc (s # ss) =
     (if s = [] \<or> s = ''.'' then normalizeSegments up acc ss
      else if s = ''..'' then
        (if acc \<noteq> [] \<and> last acc \<noteq> ''..'' then normalizeSegments up (butlast acc) ss
         else if up then normalizeSegments up (acc @ [s]) ss
         else normalizeSegments up acc ss)
      else normalizeSegments up (acc @ [s]) ss)"

definition isAbsolute :: "string \<Rightarrow> bool" where
  "isAbsolute p = (p \<noteq> [] \<and> hd p = sep)"

definition normalize :: "string \<Rightarrow> string" where
  "normalize p =
     (if p = [] then ''.''
      else let isAbs = isAbsolute p;
               trailing = (last p = sep);
               body = join_sep (normalizeSegments (\<not> isAbs) [] (split_sep p))
           in if body = [] then (if isAbs then [sep] else if trailing then ''./'' else ''.'')
              else (if isAbs then [sep] else []) @ body @ (if trailing then [sep] else []))"

text \<open>\<^verbatim>\<open>path.join(...args)\<close>: the non-empty arguments joined by the separator, normalised.\<close>

definition join :: "string list \<Rightarrow> string" where
  "join args =
     (let used = filter (\<lambda>a. a \<noteq> []) args
      in if used = [] then ''.'' else normalize (join_sep used))"

text \<open>\<^verbatim>\<open>path.basename(p)\<close>: the last non-empty segment, or the empty string.\<close>

definition basename :: "string \<Rightarrow> string" where
  "basename p =
     (let segs = filter (\<lambda>s. s \<noteq> []) (split_sep p)
      in if segs = [] then [] else last segs)"

fun last_dot :: "string \<Rightarrow> nat option" where
  "last_dot [] = None"
| "last_dot (c # cs) =
     (case last_dot cs of
        Some i \<Rightarrow> Some (Suc i)
      | None \<Rightarrow> if c = CHR ''.'' then Some 0 else None)"

text \<open>
  \<^verbatim>\<open>path.extname(p)\<close>: from the last dot of the last segment to its end; empty when there is
  no dot, when the only dot starts the segment, and for the segment \<^verbatim>\<open>..\<close>.
\<close>

definition extname :: "string \<Rightarrow> string" where
  "extname p =
     (let b = basename p
      in case last_dot b of
           None \<Rightarrow> []
         | Some i \<Rightarrow> if i = 0 \<or> b = ''..'' then [] else drop i b)"

text \<open>\<^verbatim>\<open>path.resolve(p)\<close> against the working directory \<open>cwd\<close> of the process.\<close>

definition resolveSegments :: "string \<Rightarrow> string \<Rightarrow> string list" where
  "resolveSegments cwd p =
     (if isAbsolute p then normalizeSegments False [] (split_sep p)
      else normalizeSegments False [] (split_sep cwd @ split_sep p))"

fun dropCommon :: "string list \<Rightarrow> string list \<Rightarrow> string list \<times> string list" where
  "dropCommon (a # as) (b # bs) = (if a = b then dropCommon as bs else (a # as, b # bs))"
| "dropCommon as bs = (as, bs)"

text \<open>\<^verbatim>\<open>path.relative(from, to)\<close>: climb out of what is left of \<open>from\<close>, descend into \<open>to\<close>.\<close>

definition relative :: "string \<Rightarrow> string \<Rightarrow> string \<Rightarrow> string" where
  "relative cwd from to =
     (if from = to then []
      else case dropCommon (resolveSegments cwd from) (resolveSegments cwd to) of
             (f, t) \<Rightarrow> join_sep (replicate (length f) ''..'' @ t))"

section \<open>Tree items\<close>

text \<open>
  \<^verbatim>\<open>Section\<close>, \<^verbatim>\<open>Folder\<close> and \<^verbatim>\<open>File\<close> all extend \<^verbatim>\<open>Container\<close>, so every item carries a
  list of children. Of the fields of a tree item the model keeps the label, the kind
  (\<^verbatim>\<open>contextValue\<close>), the description and the children, and for a file its path and id.
\<close>

datatype kind = Section | Folder | File

datatype item =
  Item (kind: kind) (label: string) (filePath: "string option") (ident: "string option")
       (description: "string option") (children: "item list")

definition newSection :: "string \<Rightarrow> item list \<Rightarrow> item" where
  "newSection name cs = Item Section name None None None cs"

definition newFolder :: "string \<Rightarrow> item" where
  "newFolder name = Item Folder name None None None []"

fun setChildren :: "item \<Rightarrow> item list \<Rightarrow> item" where
  "setChildren (Item k l fp i d cs) cs' = Item k l fp i d cs'"

section \<open>The environment and the configuration file\<close>

text \<open>
  \<open>workspaceRoot\<close> is the root the provider was built with, which is also the first
  workspace folder that \<^verbatim>\<open>File\<close> and the note command ask the host for; \<open>cwd\<close> is the
  working directory of the process, which \<^verbatim>\<open>path.relative\<close> resolves relative paths
  against. A file on disk is its text together with what \<^verbatim>\<open>JSON.parse\<close> makes of that text:
  the message of the SyntaxError, or the parsed value.
\<close>

record env =
  workspaceRoot :: string
  cwd :: string

record configFile =
  content :: string
  parsed :: "string + json"

definition andThen :: "error + 'a \<Rightarrow> ('a \<Rightarrow> error + 'b) \<Rightarrow> error + 'b" where
  "andThen m f = (case m of Inl e \<Rightarrow> Inl e | Inr x \<Rightarrow> f x)"

definition configPath :: "env \<Rightarrow> string" where
  "configPath e = join [workspaceRoot e, ''.vscode'', ''contexts.json'']"

text \<open>\<^verbatim>\<open>JSON.parse(fs.readFileSync(configPath, 'utf-8'))\<close> on an existing file.\<close>

definition readConfig :: "configFile \<Rightarrow> error + json" where
  "readConfig f = (case parsed f of Inl msg \<Rightarrow> Inl (SyntaxError msg) | Inr v \<Rightarrow> Inr v)"

text \<open>\<^verbatim>\<open>config.configs.showFolders\<close>\<close>

definition showFoldersOf :: "json \<Rightarrow> error + jsval" where
  "showFoldersOf config =
     andThen (getProp (Val config) ''configs'') (\<lambda>c. getProp c ''showFolders'')"

text \<open>\<^verbatim>\<open>config.notes && config.notes[relativePath]\<close>\<close>

definition noteOf :: "json \<Rightarrow> string \<Rightarrow> error + jsval" where
  "noteOf config relativePath =
     andThen (getProp (Val config) ''notes'')
       (\<lambda>notes. if truthy notes then getProp notes relativePath else Inr notes)"

definition noteGlyph :: string where
  "noteGlyph = [char_of (0xF0::nat), char_of (0x9F::nat), char_of (0x93::nat), char_of (0x9D::nat)]"

section \<open>The tree data provider\<close>

text \<open>
  The constructor of \<^verbatim>\<open>File\<close>. It reads and parses the configuration file again; \<open>config\<close>
  is the value parsed from it.
\<close>

definition newFile :: "env \<Rightarrow> json \<Rightarrow> string \<Rightarrow> string \<Rightarrow> error + item" where
  "newFile e config path contextName =
     andThen (showFoldersOf config) (\<lambda>showFolders.
     andThen (noteOf config (relative (cwd e) (workspaceRoot e) path)) (\<lambda>note.
       Inr (Item File (basename path) (Some path) (Some (path @ contextName))
              (if \<not> truthy showFolders then
                 (let parts = split_sep path
                  in if 2 \<le> length parts then Some (parts ! (length parts - 2)) else None)
               else if truthy note then Some noteGlyph
               else None)
              [])))"

fun findLabel :: "string \<Rightarrow> item list \<Rightarrow> nat option" where
  "findLabel part [] = None"
| "findLabel part (x # xs) =
     (if label x = part then Some 0 else map_option Suc (findLabel part xs))"

text \<open>
  The loop of \<^verbatim>\<open>addToTree\<close> over the parts of a path, from the level \<open>currentLevel\<close>.
  \<open>path\<close> is \<^verbatim>\<open>path.join(this.workspaceRoot, ...parts)\<close> of the whole path.
\<close>

fun walk :: "env \<Rightarrow> json \<Rightarrow> string \<Rightarrow> string \<Rightarrow> item list \<Rightarrow> string list \<Rightarrow> error + item list" where
  "walk e config contextName path currentLevel [] = Inr currentLevel"
| "walk e config contextName path currentLevel [part] =
     (case findLabel part currentLevel of
        None \<Rightarrow> andThen (newFile e config path contextName) (\<lambda>f. Inr (currentLevel @ [f]))
      | Some i \<Rightarrow> Inr currentLevel)"
| "walk e config contextName path currentLevel (part # rest) =
     (case findLabel part currentLevel of
        None \<Rightarrow>
          andThen (walk e config contextName path [] rest)
            (\<lambda>cs. Inr (currentLevel @ [setChildren (newFolder part) cs]))
      | Some i \<Rightarrow>
          andThen (walk e config contextName path (children (currentLevel ! i)) rest)
            (\<lambda>cs. Inr (currentLevel[i := setChildren (currentLevel ! i) cs])))"

text \<open>\<^verbatim>\<open>fullPath.split(path.sep)\<close>: only a string has the method.\<close>

fun splitPath :: "json \<Rightarrow> error + string list" where
  "splitPath (JStr s) = Inr (split_sep s)"
| "splitPath _ = Inl TypeError"

definition addToTree :: "env \<Rightarrow> json \<Rightarrow> item list \<Rightarrow> json \<Rightarrow> string \<Rightarrow> error + item list" where
  "addToTree e config parent fullPath contextName =
     andThen (splitPath fullPath) (\<lambda>parts.
     andThen (showFoldersOf config) (\<lambda>showFolders.
       if truthy showFolders then
         walk e config contextName (join (workspaceRoot e # parts)) parent parts
       else
         andThen (newFile e config (join (workspaceRoot e # parts)) contextName)
           (\<lambda>f. Inr (parent @ [f]))))"

text \<open>\<^verbatim>\<open>path.extname(filePath)\<close> throws on an argument that is not a string.\<close>

fun extnameOf :: "json \<Rightarrow> error + string" where
  "extnameOf (JStr s) = Inr (extname s)"
| "extnameOf _ = Inl TypeError"

text \<open>The inner loop of \<^verbatim>\<open>handleLoadConfig\<close>, over the paths of one context.\<close>

fun pathsLoop :: "env \<Rightarrow> json \<Rightarrow> jsval \<Rightarrow> string \<Rightarrow> item list \<Rightarrow> json list \<Rightarrow> error + item list" where
  "pathsLoop e config showFolders sectionName sectionItems [] = Inr sectionItems"
| "pathsLoop e config showFolders sectionName sectionItems (fp # fps) =
     andThen (if truthy showFolders then Inr True
              else andThen (extnameOf fp) (\<lambda>ext. Inr (ext \<noteq> [])))
       (\<lambda>wanted.
          if wanted then
            andThen (addToTree e config sectionItems fp sectionName)
              (\<lambda>sectionItems'. pathsLoop e config showFolders sectionName sectionItems' fps)
          else pathsLoop e config showFolders sectionName sectionItems fps)"

text \<open>
  The outer loop, over the context names. Each finished section is pushed to \<^verbatim>\<open>_items\<close>;
  an exception leaves \<^verbatim>\<open>_items\<close> as it is at that moment. The result is \<^verbatim>\<open>_items\<close> and
  the exception thrown, if any.
\<close>

fun sectionsLoop :: "env \<Rightarrow> json \<Rightarrow> jsval \<Rightarrow> jsval \<Rightarrow> item list \<Rightarrow> string list \<Rightarrow> item list \<times> error option" where
  "sectionsLoop e config showFolders contexts items [] = (items, None)"
| "sectionsLoop e config showFolders contexts items (sectionName # names) =
     (case andThen (getProp contexts sectionName) (\<lambda>paths.
           andThen (iterate paths) (\<lambda>fps.
             pathsLoop e config showFolders sectionName [] fps)) of
        Inl err \<Rightarrow> (items, Some err)
      | Inr sectionItems \<Rightarrow>
          sectionsLoop e config showFolders contexts
            (items @ [newSection sectionName sectionItems]) names)"

definition handleLoadConfig :: "env \<Rightarrow> configFile \<Rightarrow> item list \<Rightarrow> item list \<times> error option" where
  "handleLoadConfig e f items =
     (case readConfig f of
        Inl err \<Rightarrow> (items, Some err)
      | Inr config \<Rightarrow>
          (case showFoldersOf config of
             Inl err \<Rightarrow> (items, Some err)
           | Inr showFolders \<Rightarrow>
               (case getProp (Val config) ''contexts'' of
                  Inl err \<Rightarrow> (items, Some err)
                | Inr contexts \<Rightarrow>
                    sectionsLoop e config showFolders contexts items (keys_in contexts))))"

datatype notification =
    ErrorMessage string
  | WarningMessage string
  | InformationMessage string

text \<open>
  What the program can change: the configuration file on disk (\<open>None\<close> when it does not
  exist), the root items of the provider, the notifications shown to the user, and the host
  commands run with \<^verbatim>\<open>vscode.commands.executeCommand\<close>. \<open>writable\<close> tells whether
  \<^verbatim>\<open>fs.writeFileSync\<close> on the configuration file succeeds.
\<close>

record world =
  disk :: "configFile option"
  writable :: bool
  items :: "item list"
  shown :: "notification list"
  executed :: "string list"

definition readErrorMessages :: "env \<Rightarrow> error \<Rightarrow> notification list" where
  "readErrorMessages e err =
     (let message = ''Error while reading file '' @ configPath e @ '', check your file''
      in [ErrorMessage message,
          ErrorMessage (case err of
                          SyntaxError m \<Rightarrow> ''Error while reading file configPath, details : '' @ m
                        | TypeError \<Rightarrow> message)])"

definition notFoundWarning :: notification where
  "notFoundWarning = WarningMessage
     ''File contexts.json was not found in the .vscode folder, so it has been created for you.''"

text \<open>\<^verbatim>\<open>loadConfig\<close>, called by the constructor and by \<^verbatim>\<open>refresh\<close>.\<close>

definition loadConfig :: "env \<Rightarrow> world \<Rightarrow> world" where
  "loadConfig e w =
     (case disk w of
        Some f \<Rightarrow>
          (case handleLoadConfig e f [] of
             (its, None) \<Rightarrow> w\<lparr>items := its\<rparr>
           | (its, Some err) \<Rightarrow> w\<lparr>items := its, shown := shown w @ readErrorMessages e err\<rparr>)
      | None \<Rightarrow> w\<lparr>items := [], shown := shown w @ [notFoundWarning]\<rparr>)"

section \<open>Writing the configuration back\<close>

subsection \<open>Own properties of an object\<close>

text \<open>
  An object enumerates its integer-like keys first, in ascending order, then its other keys
  in the order they were created. Assigning to an existing property keeps its place; a new
  property goes to the place this order gives it. Assigning to \<^verbatim>\<open>__proto__\<close> where the
  object has no own property of that name runs the inherited setter, which creates no
  property (and ignores a value that is not an object: the program assigns strings).
\<close>

definition isDigit :: "char \<Rightarrow> bool" where
  "isDigit c = (48 \<le> (of_char c :: nat) \<and> (of_char c :: nat) \<le> 57)"

definition indexOfKey :: "string \<Rightarrow> nat option" where
  "indexOfKey k =
     (if k \<noteq> [] \<and> list_all isDigit k \<and> (k = ''0'' \<or> hd k \<noteq> CHR ''0'') then
        (let n = foldl (\<lambda>a c. 10 * a + ((of_char c :: nat) - 48)) 0 k
         in if n < 4294967295 then Some n else None)
      else None)"

fun insertIndexed :: "nat \<Rightarrow> string \<Rightarrow> json \<Rightarrow> (string \<times> json) list \<Rightarrow> (string \<times> json) list" where
  "insertIndexed n k v [] = [(k, v)]"
| "insertIndexed n k v ((k', v') # ps) =
     (case indexOfKey k' of
        Some m \<Rightarrow> if m < n then (k', v') # insertIndexed n k v ps else (k, v) # (k', v') # ps
      | None \<Rightarrow> (k, v) # (k', v') # ps)"

definition assignProp :: "(string \<times> json) list \<Rightarrow> string \<Rightarrow> json \<Rightarrow> (string \<times> json) list" where
  "assignProp ps k v =
     (if k \<in> fst ` set ps then map (\<lambda>(k', v'). if k' = k then (k', v) else (k', v')) ps
      else if k = ''__proto__'' then ps
      else case indexOfKey k of
             None \<Rightarrow> ps @ [(k, v)]
           | Some n \<Rightarrow> insertIndexed n k v ps)"

definition deleteOwn :: "(string \<times> json) list \<Rightarrow> string \<Rightarrow> (string \<times> json) list" where
  "deleteOwn ps k = filter (\<lambda>(k', v'). k' \<noteq> k) ps"

subsection \<open>\<^verbatim>\<open>JSON.stringify(value, null, 2)\<close>\<close>

definition hexDigit :: "nat \<Rightarrow> char" where
  "hexDigit n = (if n < 10 then char_of (48 + n) else char_of (87 + n))"

definition escapeChar :: "char \<Rightarrow> string" where
  "escapeChar c =
     (let n = (of_char c :: nat)
      in if c = CHR 0x22 then [CHR 0x5C, CHR 0x22]
         else if c = CHR 0x5C then [CHR 0x5C, CHR 0x5C]
         else if n = 8 then [CHR 0x5C, CHR ''b'']
         else if n = 9 then [CHR 0x5C, CHR ''t'']
         else if n = 10 then [CHR 0x5C, CHR ''n'']
         else if n = 12 then [CHR 0x5C, CHR ''f'']
         else if n = 13 then [CHR 0x5C, CHR ''r'']
         else if n < 32 then [CHR 0x5C, CHR ''u'', CHR ''0'', CHR ''0'', hexDigit (n div 16), hexDigit (n mod 16)]
         else [c])"

text \<open>
  A surrogate that stands alone is printed as an escape; in a string of this model every
  surrogate stands alone, a pair being the four bytes of its code point.
\<close>

definition isSurrogate :: "string \<Rightarrow> bool" where
  "isSurrogate cp = (length cp = 3 \<and> (of_char (cp ! 0) :: nat) = 237 \<and> 160 \<le> (of_char (cp ! 1) :: nat))"

definition escapeCodePoint :: "string \<Rightarrow> string" where
  "escapeCodePoint cp =
     (if isSurrogate cp then
        (let u = ((of_char (cp ! 0) :: nat) mod 16) * 4096 + ((of_char (cp ! 1) :: nat) mod 64) * 64
                 + (of_char (cp ! 2) :: nat) mod 64
         in [CHR 0x5C, CHR ''u'', hexDigit (u div 4096), hexDigit ((u div 256) mod 16),
             hexDigit ((u div 16) mod 16), hexDigit (u mod 16)])
      else concat (map escapeChar cp))"

definition quote :: "string \<Rightarrow> string" where
  "quote s = CHR 0x22 # concat (map escapeCodePoint (codePoints s)) @ [CHR 0x22]"

definition indentation :: "nat \<Rightarrow> string" where
  "indentation depth = replicate (2 * depth) CHR '' ''"

definition lines :: "nat \<Rightarrow> string list \<Rightarrow> string" where
  "lines depth entries =
     concat (map (\<lambda>(i, entry). (if i = 0 then [] else '','') @ [CHR 0x0A] @ indentation (Suc depth) @ entry)
                 (zip [0..<length entries] entries))
     @ [CHR 0x0A] @ indentation depth"

fun stringify :: "nat \<Rightarrow> json \<Rightarrow> string" where
  "stringify depth JNull = ''null''"
| "stringify depth (JBool b) = (if b then ''true'' else ''false'')"
| "stringify depth (JNum t) = t"
| "stringify depth (JStr s) = quote s"
| "stringify depth (JArr xs) =
     (if xs = [] then ''[]''
      else ''['' @ lines depth (map (stringify (Suc depth)) xs) @ '']'')"
| "stringify depth (JObj ps) =
     (if ps = [] then ''{}''
      else ''{'' @ lines depth (map (\<lambda>(k, v). quote k @ '': '' @ stringify (Suc depth) v) ps) @ ''}'')"

definition stringify2 :: "json \<Rightarrow> string" where
  "stringify2 v = stringify 0 v"

section \<open>The add-note command\<close>

text \<open>
  The command is asynchronous; an exception outside its \<^verbatim>\<open>try\<close> blocks rejects its promise.
  \<open>Rejected\<close> carries that exception and the world at that moment. \<open>Unmodelled\<close> stands
  for the behaviour past the prompt when \<^verbatim>\<open>config.notes\<close> is a truthy value that is not an
  object (a string, a number, \<^verbatim>\<open>true\<close>, an array), which this model does not describe.
\<close>

datatype outcome = Finished world | Rejected error world | Unmodelled

text \<open>
  The last step: \<^verbatim>\<open>fs.writeFileSync(configPath, JSON.stringify(config, null, 2))\<close>, the
  message and the refresh command, or the message of the \<^verbatim>\<open>catch\<close>. The file written is
  the text with the value that parsing that text gives back.
\<close>

definition writeBack :: "world \<Rightarrow> json \<Rightarrow> string \<Rightarrow> outcome" where
  "writeBack w config note =
     (if writable w then
        Finished (w\<lparr>disk := Some \<lparr>content = stringify2 config, parsed = Inr config\<rparr>,
                     shown := shown w @ [InformationMessage (if note = [] then ''Note removed'' else ''Note saved'')],
                     executed := executed w @ [''context-organizer.refresh'']\<rparr>)
      else Finished (w\<lparr>shown := shown w @ [ErrorMessage ''Error saving note to contexts.json'']\<rparr>))"

text \<open>
  Lines 57 to 67 on an object \<open>ps\<close> whose \<^verbatim>\<open>notes\<close> object is \<open>ns\<close>: the properties that
  are written back.
\<close>

definition updateNotes :: "(string \<times> json) list \<Rightarrow> (string \<times> json) list \<Rightarrow> string \<Rightarrow> string \<Rightarrow> (string \<times> json) list" where
  "updateNotes ps ns relativePath note =
     (if note = [] then
        (let ns' = deleteOwn ns relativePath
         in if length (map fst ns') = 0 then deleteOwn ps ''notes''
            else assignProp ps ''notes'' (JObj ns'))
      else assignProp ps ''notes'' (JObj (assignProp ns relativePath (JStr note))))"

text \<open>Lines 37 to 39: \<^verbatim>\<open>if (!config.notes) { config.notes = {}; }\<close> on an object.\<close>

definition ensureNotes :: "(string \<times> json) list \<Rightarrow> (string \<times> json) list" where
  "ensureNotes ps = (if truthy (propOf ps ''notes'') then ps else assignProp ps ''notes'' (JObj []))"

text \<open>
  \<^verbatim>\<open>addNoteToFileCommand(fileItem)\<close>: \<open>absolutePath\<close> is \<^verbatim>\<open>fileItem.filePath\<close> and \<open>answer\<close>
  is what the input box returns, \<open>None\<close> when the user cancels it. The box is seeded with
  the existing note, which does not enter the result. Assigning a property to a number, a
  string or a boolean throws in strict mode; an array takes the property, and
  \<^verbatim>\<open>JSON.stringify\<close> does not print it.
\<close>

definition addNoteToFileCommand :: "env \<Rightarrow> world \<Rightarrow> string \<Rightarrow> string option \<Rightarrow> outcome" where
  "addNoteToFileCommand e w absolutePath answer =
     (if workspaceRoot e = [] then
        Finished (w\<lparr>shown := shown w @ [ErrorMessage ''No workspace folder is open'']\<rparr>)
      else case disk w of
        None \<Rightarrow> Finished (w\<lparr>shown := shown w @ [ErrorMessage ''contexts.json file not found'']\<rparr>)
      | Some f \<Rightarrow>
          (case readConfig f of
             Inl err \<Rightarrow> Finished (w\<lparr>shown := shown w @ [ErrorMessage ''Error reading contexts.json'']\<rparr>)
           | Inr config \<Rightarrow>
               (let relativePath = relative (cwd e) (workspaceRoot e) absolutePath
                in case config of
                     JObj ps \<Rightarrow>
                       (let ps1 = ensureNotes ps
                        in case answer of
                             None \<Rightarrow> Finished w
                           | Some note \<Rightarrow>
                               (case map_of ps1 ''notes'' of
                                  Some (JObj ns) \<Rightarrow> writeBack w (JObj (updateNotes ps1 ns relativePath note)) note
                                | _ \<Rightarrow> Unmodelled))
                   | JArr xs \<Rightarrow>
                       (case answer of
                          None \<Rightarrow> Finished w
                        | Some note \<Rightarrow> writeBack w (JArr xs) note)
                   | _ \<Rightarrow> Rejected TypeError w)))"

section \<open>Well-formed configuration documents\<close>

text \<open>
  A document of the documented layout: contexts in their order, each with its list of
  paths; the optional notes; the two display settings.
\<close>

record ConfigDocument =
  docContexts :: "(string \<times> string list) list"
  docNotes :: "(string \<times> string) list option"
  docShowFolders :: bool
  docOrderAlphabetically :: bool

definition encodeContexts :: "(string \<times> string list) list \<Rightarrow> json" where
  "encodeContexts cs = JObj (map (\<lambda>(name, paths). (name, JArr (map JStr paths))) cs)"

definition encodeNotes :: "(string \<times> string) list \<Rightarrow> json" where
  "encodeNotes ns = JObj (map (\<lambda>(path, note). (path, JStr note)) ns)"

definition encode :: "ConfigDocument \<Rightarrow> json" where
  "encode d =
     JObj ([(''contexts'', encodeContexts (docContexts d))]
           @ (case docNotes d of None \<Rightarrow> [] | Some ns \<Rightarrow> [(''notes'', encodeNotes ns)])
           @ [(''configs'', JObj [(''showFolders'', JBool (docShowFolders d)),
                                  (''orderAlphabetically'', JBool (docOrderAlphabetically d))])])"

text \<open>The note text stored for a relative path, if any.\<close>

definition docNote :: "ConfigDocument \<Rightarrow> string \<Rightarrow> string option" where
  "docNote d path = (case docNotes d of None \<Rightarrow> None | Some ns \<Rightarrow> map_of ns path)"

text \<open>
  Whether \<^verbatim>\<open>config.notes && config.notes[path]\<close> is truthy on such a document: the note of
  the path is not empty, or there is a notes map without the path and the path is the name
  of an inherited member.
\<close>

definition noteTruthy :: "ConfigDocument \<Rightarrow> string \<Rightarrow> bool" where
  "noteTruthy d path =
     (case docNotes d of
        None \<Rightarrow> False
      | Some ns \<Rightarrow> (case map_of ns path of
                     Some t \<Rightarrow> t \<noteq> []
                   | None \<Rightarrow> path \<in> set objectPrototypeNames))"

section \<open>Shapes of trees\<close>

text \<open>
  Among the children of an item, and of every item below it, no two folders carry the
  same label.
\<close>

fun foldersUnique :: "item \<Rightarrow> bool" where
  "foldersUnique (Item k l fp i d cs) =
     (distinct (map label (filter (\<lambda>c. kind c = Folder) cs)) \<and> (\<forall>c \<in> set cs. foldersUnique c))"

text \<open>The same, of a list of siblings.\<close>

definition levelUnique :: "item list \<Rightarrow> bool" where
  "levelUnique lvl \<longleftrightarrow>
     distinct (map label (filter (\<lambda>c. kind c = Folder) lvl)) \<and> (\<forall>c \<in> set lvl. foldersUnique c)"

text \<open>The files of one context in flat mode: one per path that has an extension.\<close>

definition flatFiles :: "env \<Rightarrow> ConfigDocument \<Rightarrow> string \<Rightarrow> string list \<Rightarrow> item list" where
  "flatFiles e d name ps =
     map (\<lambda>p. projr (newFile e (encode d) (join (workspaceRoot e # split_sep p)) name))
       (filter (\<lambda>p. extname p \<noteq> []) ps)"

section \<open>The notes of a document\<close>

text \<open>
  The notes map of a parsed document: the entries of its \<^verbatim>\<open>notes\<close> object, and no entry
  when there is no such object.
\<close>

definition notesEntries :: "(string \<times> json) list \<Rightarrow> (string \<times> json) list" where
  "notesEntries ps = (case map_of ps ''notes'' of Some (JObj ns) \<Rightarrow> ns | _ \<Rightarrow> [])"

definition notesOf :: "(string \<times> json) list \<Rightarrow> string \<Rightarrow> json option" where
  "notesOf ps = map_of (notesEntries ps)"

text \<open>The \<^verbatim>\<open>notes\<close> property is an object, or is missing or falsy.\<close>

definition notesUsable :: "(string \<times> json) list \<Rightarrow> bool" where
  "notesUsable ps =
     (case map_of ps ''notes'' of
        None \<Rightarrow> True
      | Some (JObj ns) \<Rightarrow> True
      | Some v \<Rightarrow> \<not> truthy (Val v))"

section \<open>Following labels down a tree\<close>

text \<open>
  The items met when the segments are followed from a level, each segment by the first
  child that carries it as its label, as \<^verbatim>\<open>currentLevel.find\<close> does; \<open>None\<close> when a segment
  has no such child.
\<close>

fun descend :: "item list \<Rightarrow> string list \<Rightarrow> item list option" where
  "descend lvl [] = Some []"
| "descend lvl (s # ss) =
     (case findLabel s lvl of
        None \<Rightarrow> None
      | Some i \<Rightarrow> map_option ((#) (lvl ! i)) (descend (children (lvl ! i)) ss))"

text \<open>The children of the Section of one context of a well-formed document in grouped mode.\<close>

definition groupedItems :: "env \<Rightarrow> ConfigDocument \<Rightarrow> string \<Rightarrow> string list \<Rightarrow> item list" where
  "groupedItems e d name ps = projr (pathsLoop e (encode d) (Val (JBool True)) name [] (map JStr ps))"

section \<open>Texts\<close>

text \<open>The text made of the given lines, with a line feed between two lines.\<close>

fun textOfLines :: "string list \<Rightarrow> string" where
  "textOfLines [] = []"
| "textOfLines [l] = l"
| "textOfLines (l # ls) = l @ CHR 0x0A # textOfLines ls"

section \<open>Properties\<close>

lemma andThen_Inr [simp]: "andThen (Inr x) f = f x"
  by (simp add: andThen_def)

lemma andThen_Inl [simp]: "andThen (Inl err) f = Inl err"
  by (simp add: andThen_def)

lemma inherited_names [simp]:
  "inherited ''configs'' = Undefined" "inherited ''contexts'' = Undefined"
  "inherited ''notes'' = Undefined" "inherited ''showFolders'' = Undefined"
  by (simp_all add: inherited_def objectPrototypeNames_def)

lemma showFoldersOf_encode [simp]:
  "showFoldersOf (encode d) = Inr (Val (JBool (docShowFolders d)))"
  by (simp add: showFoldersOf_def encode_def propOf_def split: option.split)

lemma contexts_encode [simp]:
  "getProp (Val (encode d)) ''contexts'' = Inr (Val (encodeContexts (docContexts d)))"
  by (simp add: encode_def propOf_def)

lemma map_of_encodeNotes:
  "map_of (map (\<lambda>(path, note). (path, JStr note)) ns) r = map_option JStr (map_of ns r)"
  by (induction ns) auto

lemma noteOf_encode:
  "\<exists>v. noteOf (encode d) r = Inr v \<and> truthy v = noteTruthy d r"
proof (cases "docNotes d")
  case None
  then show ?thesis
    by (simp add: noteOf_def encode_def propOf_def noteTruthy_def)
next
  case (Some ns)
  show ?thesis
  proof (cases "map_of ns r")
    case None
    with Some show ?thesis
      by (simp add: noteOf_def encode_def propOf_def noteTruthy_def encodeNotes_def
            map_of_encodeNotes inherited_def)
  next
    case (Some t)
    with \<open>docNotes d = Some ns\<close> show ?thesis
      by (simp add: noteOf_def encode_def propOf_def noteTruthy_def encodeNotes_def
            map_of_encodeNotes)
  qed
qed

lemma newFile_encode:
  "newFile e (encode d) path name =
     Inr (Item File (basename path) (Some path) (Some (path @ name))
            (if \<not> docShowFolders d then
               (if 2 \<le> length (split_sep path)
                then Some (split_sep path ! (length (split_sep path) - 2)) else None)
             else if noteTruthy d (relative (cwd e) (workspaceRoot e) path)
                  then Some noteGlyph else None)
            [])"
proof -
  obtain v where "noteOf (encode d) (relative (cwd e) (workspaceRoot e) path) = Inr v"
    and "truthy v = noteTruthy d (relative (cwd e) (workspaceRoot e) path)"
    using noteOf_encode by blast
  then show ?thesis
    by (simp add: newFile_def Let_def)
qed


lemma pathsLoop_flat:
  assumes "\<not> docShowFolders d"
  shows "pathsLoop e (encode d) (Val (JBool False)) name acc (map JStr ps) =
           Inr (acc @ flatFiles e d name ps)"
  using assms
  by (induction ps arbitrary: acc) (simp_all add: flatFiles_def addToTree_def newFile_encode)

lemma getProp_encodeContexts:
  assumes "distinct (map fst cs)" and "(name, ps) \<in> set cs"
  shows "getProp (Val (encodeContexts cs)) name = Inr (Val (JArr (map JStr ps)))"
proof -
  have "map_of (map (\<lambda>(name, paths). (name, JArr (map JStr paths))) cs) name
          = map_option (\<lambda>paths. JArr (map JStr paths)) (map_of cs name)"
    by (induction cs) auto
  moreover have "map_of cs name = Some ps"
    using assms by simp
  ultimately show ?thesis
    by (simp add: encodeContexts_def propOf_def)
qed

lemma sectionsLoop_encode:
  assumes "distinct (map fst cs)" and "set rest \<subseteq> set cs"
    and "\<And>name ps. (name, ps) \<in> set rest \<Longrightarrow>
           pathsLoop e config sf name [] (map JStr ps) = Inr (G name ps)"
  shows "sectionsLoop e config sf (Val (encodeContexts cs)) its (map fst rest) =
           (its @ map (\<lambda>(name, ps). newSection name (G name ps)) rest, None)"
  using assms(2,3)
proof (induction rest arbitrary: its)
  case Nil
  then show ?case by simp
next
  case (Cons c rest)
  obtain name ps where c: "c = (name, ps)" by (cases c)
  have "(name, ps) \<in> set cs" using Cons.prems(1) c by auto
  then have "getProp (Val (encodeContexts cs)) name = Inr (Val (JArr (map JStr ps)))"
    using assms(1) by (rule getProp_encodeContexts[rotated])
  moreover have "pathsLoop e config sf name [] (map JStr ps) = Inr (G name ps)"
    using Cons.prems(2) c by simp
  moreover have "sectionsLoop e config sf (Val (encodeContexts cs))
                   (its @ [newSection name (G name ps)]) (map fst rest) =
                 ((its @ [newSection name (G name ps)]) @
                    map (\<lambda>(name, ps). newSection name (G name ps)) rest, None)"
    using Cons.prems by (intro Cons.IH) auto
  ultimately show ?case
    by (simp add: c)
qed

lemma keys_in_encodeContexts [simp]:
  "keys_in (Val (encodeContexts cs)) = map fst cs"
  by (simp add: encodeContexts_def comp_def case_prod_unfold)

lemma handleLoadConfig_flat:
  assumes "parsed f = Inr (encode d)" and "\<not> docShowFolders d"
    and "distinct (map fst (docContexts d))"
  shows "handleLoadConfig e f [] =
           (map (\<lambda>(name, ps). newSection name (flatFiles e d name ps)) (docContexts d), None)"
proof -
  have "sectionsLoop e (encode d) (Val (JBool False)) (Val (encodeContexts (docContexts d))) []
          (map fst (docContexts d)) =
        ([] @ map (\<lambda>(name, ps). newSection name (flatFiles e d name ps)) (docContexts d), None)"
    using assms(3) by (rule sectionsLoop_encode) (simp_all add: pathsLoop_flat assms(2))
  then show ?thesis
    using assms(1,2) by (simp add: handleLoadConfig_def readConfig_def)
qed


lemma flatFiles_paths:
  "map filePath (flatFiles e d name ps) =
     map (\<lambda>p. Some (join (workspaceRoot e # split_sep p))) (filter (\<lambda>p. extname p \<noteq> []) ps)"
  by (simp add: flatFiles_def newFile_encode comp_def)

lemma flatFiles_leaves:
  "c \<in> set (flatFiles e d name ps) \<Longrightarrow> kind c = File \<and> children c = []"
  by (auto simp: flatFiles_def newFile_encode)

lemma newFile_leaf:
  assumes "newFile e config path name = Inr f"
  shows "kind f = File \<and> children f = []"
  using assms by (auto simp: newFile_def andThen_def split: sum.splits)

lemma setChildren_simps [simp]:
  "kind (setChildren x cs) = kind x" "label (setChildren x cs) = label x"
  "children (setChildren x cs) = cs"
  by (cases x; simp)+

lemma levelUnique_Nil: "levelUnique []"
  by (simp add: levelUnique_def)

lemma foldersUnique_iff: "foldersUnique x \<longleftrightarrow> levelUnique (children x)"
  by (cases x) (simp add: levelUnique_def)

lemma findLabel_None: "findLabel part xs = None \<longleftrightarrow> part \<notin> label ` set xs"
  by (induction xs) auto

lemma findLabel_Some:
  "findLabel part xs = Some i \<Longrightarrow> i < length xs \<and> label (xs ! i) = part"
  by (induction xs arbitrary: i) (auto split: if_splits)

lemma filter_update_same:
  assumes "i < length xs" and "kind y = kind (xs ! i)" and "label y = label (xs ! i)"
  shows "map label (filter (\<lambda>c. kind c = Folder) (xs[i := y]))
           = map label (filter (\<lambda>c. kind c = Folder) xs)"
  using assms
proof (induction xs arbitrary: i)
  case Nil
  then show ?case by simp
next
  case (Cons x xs)
  then show ?case by (cases i) auto
qed

lemma andThen_eq_Inr: "andThen m f = Inr y \<longleftrightarrow> (\<exists>x. m = Inr x \<and> f x = Inr y)"
  by (cases m) (simp_all add: andThen_def)

lemma walk_unique:
  assumes "walk e config name path lvl parts = Inr lvl'" and "levelUnique lvl"
  shows "levelUnique lvl'"
  using assms
proof (induction e config name path lvl parts arbitrary: lvl' rule: walk.induct)
  case (1 e config name path lvl)
  then show ?case by simp
next
  case (2 e config name path lvl part)
  show ?case
  proof (cases "findLabel part lvl")
    case None
    with "2.prems"(1) have "andThen (newFile e config path name) (\<lambda>f. Inr (lvl @ [f])) = Inr lvl'"
      by simp
    then obtain f where f: "newFile e config path name = Inr f" and l: "lvl' = lvl @ [f]"
      unfolding andThen_eq_Inr by blast
    from newFile_leaf[OF f] have "kind f = File" "foldersUnique f"
      by (simp_all add: foldersUnique_iff levelUnique_Nil)
    with "2.prems"(2) l show ?thesis by (simp add: levelUnique_def)
  next
    case (Some i)
    with "2.prems" show ?thesis by simp
  qed
next
  case (3 e config name path lvl part r rest)
  show ?case
  proof (cases "findLabel part lvl")
    case None
    with "3.prems"(1) have "andThen (walk e config name path [] (r # rest))
            (\<lambda>cs. Inr (lvl @ [setChildren (newFolder part) cs])) = Inr lvl'"
      by simp
    then obtain cs where cs: "walk e config name path [] (r # rest) = Inr cs"
      and l: "lvl' = lvl @ [setChildren (newFolder part) cs]"
      unfolding andThen_eq_Inr by blast
    have "levelUnique cs"
      using "3.IH"(1)[OF None cs] by (simp add: levelUnique_def)
    then have "foldersUnique (setChildren (newFolder part) cs)"
      by (simp add: foldersUnique_iff)
    moreover have "part \<notin> label ` set lvl"
      using None by (simp add: findLabel_None)
    ultimately show ?thesis
      using "3.prems"(2) l by (auto simp: levelUnique_def newFolder_def)
  next
    case (Some i)
    with "3.prems"(1) have "andThen (walk e config name path (children (lvl ! i)) (r # rest))
            (\<lambda>cs. Inr (lvl[i := setChildren (lvl ! i) cs])) = Inr lvl'"
      by simp
    then obtain cs where cs: "walk e config name path (children (lvl ! i)) (r # rest) = Inr cs"
      and l: "lvl' = lvl[i := setChildren (lvl ! i) cs]"
      unfolding andThen_eq_Inr by blast
    have i: "i < length lvl" using findLabel_Some[OF Some] by simp
    then have "foldersUnique (lvl ! i)"
      using "3.prems"(2) by (simp add: levelUnique_def)
    then have "levelUnique (children (lvl ! i))"
      by (simp add: foldersUnique_iff)
    then have "levelUnique cs"
      using "3.IH"(2)[OF Some cs] by simp
    then have fu: "foldersUnique (setChildren (lvl ! i) cs)"
      by (simp add: foldersUnique_iff)
    have "map label (filter (\<lambda>c. kind c = Folder) lvl') = map label (filter (\<lambda>c. kind c = Folder) lvl)"
      unfolding l using i by (intro filter_update_same) simp_all
    moreover have "\<forall>c \<in> set lvl'. foldersUnique c"
    proof
      fix c assume "c \<in> set lvl'"
      then have "c \<in> insert (setChildren (lvl ! i) cs) (set lvl)"
        unfolding l using set_update_subset_insert by fast
      then show "foldersUnique c"
        using fu "3.prems"(2) by (auto simp: levelUnique_def)
    qed
    ultimately show ?thesis
      using "3.prems"(2) by (simp add: levelUnique_def)
  qed
qed


lemma addToTree_unique:
  assumes "addToTree e config parent fp name = Inr parent'" and "levelUnique parent"
  shows "levelUnique parent'"
proof -
  from assms(1) obtain parts sf where
    body: "(if truthy sf then walk e config name (join (workspaceRoot e # parts)) parent parts
            else andThen (newFile e config (join (workspaceRoot e # parts)) name)
                   (\<lambda>f. Inr (parent @ [f]))) = Inr parent'"
    unfolding addToTree_def andThen_eq_Inr by blast
  show ?thesis
  proof (cases "truthy sf")
    case True
    with body assms(2) show ?thesis by (auto dest: walk_unique)
  next
    case False
    with body obtain f where f: "newFile e config (join (workspaceRoot e # parts)) name = Inr f"
      and p: "parent' = parent @ [f]"
      by (auto simp: andThen_eq_Inr)
    from newFile_leaf[OF f] have "kind f = File" "foldersUnique f"
      by (simp_all add: foldersUnique_iff levelUnique_Nil)
    with assms(2) p show ?thesis by (simp add: levelUnique_def)
  qed
qed

lemma pathsLoop_unique:
  assumes "pathsLoop e config sf name acc fps = Inr acc'" and "levelUnique acc"
  shows "levelUnique acc'"
  using assms
proof (induction fps arbitrary: acc)
  case Nil
  then show ?case by simp
next
  case (Cons fp fps)
  from Cons.prems(1) obtain wanted where
    body: "(if wanted then andThen (addToTree e config acc fp name)
                             (\<lambda>acc''. pathsLoop e config sf name acc'' fps)
            else pathsLoop e config sf name acc fps) = Inr acc'"
    unfolding pathsLoop.simps andThen_eq_Inr by blast
  show ?case
  proof (cases wanted)
    case True
    with body obtain acc'' where "addToTree e config acc fp name = Inr acc''"
      and "pathsLoop e config sf name acc'' fps = Inr acc'"
      by (auto simp: andThen_eq_Inr)
    then show ?thesis
      using Cons.IH Cons.prems(2) addToTree_unique by blast
  next
    case False
    with body Cons.IH Cons.prems(2) show ?thesis by simp
  qed
qed

lemma sectionsLoop_unique:
  assumes "\<forall>s \<in> set its. kind s = Section \<and> foldersUnique s"
  shows "\<forall>s \<in> set (fst (sectionsLoop e config sf contexts its names)).
           kind s = Section \<and> foldersUnique s"
  using assms
proof (induction names arbitrary: its)
  case Nil
  then show ?case by simp
next
  case (Cons name names)
  show ?case
  proof (cases "andThen (getProp contexts name) (\<lambda>paths.
           andThen (iterate paths) (\<lambda>fps. pathsLoop e config sf name [] fps))")
    case (Inl err)
    with Cons.prems show ?thesis by simp
  next
    case (Inr sectionItems)
    then obtain fps where "pathsLoop e config sf name [] fps = Inr sectionItems"
      unfolding andThen_eq_Inr by blast
    then have "levelUnique sectionItems"
      using pathsLoop_unique levelUnique_Nil by blast
    then have "foldersUnique (newSection name sectionItems)"
      by (simp add: foldersUnique_iff newSection_def)
    then have "\<forall>s \<in> set (its @ [newSection name sectionItems]). kind s = Section \<and> foldersUnique s"
      using Cons.prems by (simp add: newSection_def)
    from Cons.IH[OF this] show ?thesis
      using Inr by simp
  qed
qed

lemma handleLoadConfig_unique:
  "\<forall>s \<in> set (fst (handleLoadConfig e f [])). kind s = Section \<and> foldersUnique s"
  using sectionsLoop_unique[of "[]"]
  by (simp add: handleLoadConfig_def split: sum.split)

lemma loadConfig_unique:
  "\<forall>s \<in> set (items (loadConfig e w)). kind s = Section \<and> foldersUnique s"
proof (cases "disk w")
  case None
  then show ?thesis by (simp add: loadConfig_def)
next
  case (Some f)
  obtain its err where h: "handleLoadConfig e f [] = (its, err)"
    by (cases "handleLoadConfig e f []")
  with handleLoadConfig_unique[of e f] have "\<forall>s \<in> set its. kind s = Section \<and> foldersUnique s"
    by simp
  then show ?thesis
    using Some h by (cases err) (simp_all add: loadConfig_def)
qed






lemma map_of_replace:
  "map_of (map (\<lambda>(k', v'). if k' = k then (k', v) else (k', v')) ps) x =
     (if x = k then map_option (\<lambda>_. v) (map_of ps k) else map_of ps x)"
proof (induction ps)
  case Nil
  then show ?case by simp
next
  case (Cons p ps)
  obtain k' v' where p: "p = (k', v')" by (cases p)
  show ?case
    using Cons.IH by (cases "k' = k"; cases "x = k") (simp_all add: p)
qed

lemma map_of_insertIndexed:
  "k \<notin> fst ` set ps \<Longrightarrow>
     map_of (insertIndexed n k v ps) x = (if x = k then Some v else map_of ps x)"
proof (induction ps)
  case Nil
  then show ?case by simp
next
  case (Cons p ps)
  obtain k' v' where p: "p = (k', v')" by (cases p)
  from Cons.prems p have ne: "k \<noteq> k'" and "k \<notin> fst ` set ps" by auto
  then have IH: "map_of (insertIndexed n k v ps) x = (if x = k then Some v else map_of ps x)"
    using Cons.IH by simp
  show ?case
  proof (cases "indexOfKey k'")
    case None
    then show ?thesis using ne by (simp add: p)
  next
    case (Some m)
    then show ?thesis using ne IH by (cases "m < n"; cases "x = k") (simp_all add: p)
  qed
qed

lemma map_of_append_new:
  "k \<notin> fst ` set ps \<Longrightarrow> map_of (ps @ [(k, v)]) x = (if x = k then Some v else map_of ps x)"
  by (induction ps) auto

lemma keys_replace:
  "map fst (map (\<lambda>(k', v'). if k' = k then (k', v) else (k', v')) ps) = map fst ps"
  by (induction ps) auto

lemma map_of_assignProp:
  "map_of (assignProp ps k v) x =
     (if x = k \<and> (k \<noteq> ''__proto__'' \<or> map_of ps k \<noteq> None) then Some v else map_of ps x)"
proof (cases "k \<in> fst ` set ps")
  case True
  then obtain v0 where "map_of ps k = Some v0"
    by (metis map_of_eq_None_iff not_Some_eq)
  with True show ?thesis
    by (simp add: assignProp_def map_of_replace)
next
  case False
  then have none: "map_of ps k = None"
    by (simp add: map_of_eq_None_iff)
  show ?thesis
  proof (cases "k = ''__proto__''")
    case True
    with False none show ?thesis by (simp add: assignProp_def)
  next
    case proto: False
    show ?thesis
    proof (cases "indexOfKey k")
      case None
      with False proto have "assignProp ps k v = ps @ [(k, v)]" by (simp add: assignProp_def)
      then show ?thesis using map_of_append_new[OF False] proto by simp
    next
      case (Some n)
      with False proto have "assignProp ps k v = insertIndexed n k v ps" by (simp add: assignProp_def)
      then show ?thesis using map_of_insertIndexed[OF False] proto by simp
    qed
  qed
qed

lemma map_of_assign_notes:
  "map_of (assignProp ps ''notes'' v) x = (if x = ''notes'' then Some v else map_of ps x)"
  by (simp add: map_of_assignProp)

lemma map_of_deleteOwn: "map_of (deleteOwn ps k) x = (if x = k then None else map_of ps x)"
  unfolding deleteOwn_def
proof (induction ps)
  case Nil
  then show ?case by simp
next
  case (Cons p ps)
  obtain k' v' where p: "p = (k', v')" by (cases p)
  show ?case
    using Cons.IH by (cases "k' = k"; cases "x = k") (simp_all add: p)
qed

lemma replace_same:
  "\<forall>(k', v') \<in> set qs. k' = k \<longrightarrow> v' = v \<Longrightarrow>
     map (\<lambda>(k', v'). if k' = k then (k', v) else (k', v')) qs = qs"
proof (induction qs)
  case Nil
  then show ?case by simp
next
  case (Cons p qs)
  obtain k' v' where p: "p = (k', v')" by (cases p)
  from Cons.prems have "\<forall>(k', v') \<in> set qs. k' = k \<longrightarrow> v' = v" by simp
  then have "map (\<lambda>(k', v'). if k' = k then (k', v) else (k', v')) qs = qs"
    by (rule Cons.IH)
  moreover have "k' = k \<longrightarrow> v' = v" using Cons.prems p by simp
  ultimately show ?case by (simp add: p)
qed

lemma set_insertIndexed: "set (insertIndexed n k v ps) = insert (k, v) (set ps)"
  by (induction n k v ps rule: insertIndexed.induct) (simp_all add: insert_commute split: option.split)

lemma assignProp_values: "(k, v') \<in> set (assignProp ps k v) \<Longrightarrow> v' = v"
proof (cases "k \<in> fst ` set ps")
  case True
  assume "(k, v') \<in> set (assignProp ps k v)"
  with True have "(k, v') \<in> (\<lambda>(k', v'). if k' = k then (k', v) else (k', v')) ` set ps"
    by (simp add: assignProp_def)
  then show ?thesis by (auto split: if_splits)
next
  case False
  assume "(k, v') \<in> set (assignProp ps k v)"
  with False show ?thesis
    by (auto simp: assignProp_def set_insertIndexed image_iff split: option.splits if_splits)
qed

lemma assignProp_idem: "assignProp (assignProp ps k v) k v = assignProp ps k v"
proof (cases "k \<in> fst ` set (assignProp ps k v)")
  case True
  have "map (\<lambda>(k', v'). if k' = k then (k', v) else (k', v')) (assignProp ps k v) = assignProp ps k v"
    by (rule replace_same) (auto dest: assignProp_values)
  then show ?thesis
    using True by (subst assignProp_def) simp
next
  case False
  have "map_of (assignProp ps k v) k = None"
    using False by (simp add: map_of_eq_None_iff)
  then have "k = ''__proto__''" and "map_of ps k = None"
    by (simp_all add: map_of_assignProp split: if_splits)
  then have "k \<notin> fst ` set ps"
    by (simp add: map_of_eq_None_iff)
  with \<open>k = ''__proto__''\<close> have "assignProp ps k v = ps"
    by (simp add: assignProp_def)
  then show ?thesis by simp
qed

lemma ensureNotes_notes:
  assumes "notesUsable ps"
  shows "map_of (ensureNotes ps) ''notes'' = Some (JObj (notesEntries ps))"
proof (cases "truthy (propOf ps ''notes'')")
  case True
  with assms obtain ns where "map_of ps ''notes'' = Some (JObj ns)"
    by (auto simp: notesUsable_def propOf_def split: option.splits json.splits)
  with True show ?thesis
    by (simp add: ensureNotes_def notesEntries_def)
next
  case False
  then have "notesEntries ps = []"
    by (auto simp: notesEntries_def propOf_def split: option.splits json.splits)
  with False show ?thesis
    by (simp add: ensureNotes_def map_of_assignProp)
qed

lemma ensureNotes_other:
  "k \<noteq> ''notes'' \<Longrightarrow> map_of (ensureNotes ps) k = map_of ps k"
  by (simp add: ensureNotes_def map_of_assignProp)

lemma addNote_object:
  assumes "workspaceRoot e \<noteq> []" and "disk w = Some f" and "parsed f = Inr (JObj ps)"
    and "notesUsable ps"
  shows "addNoteToFileCommand e w path (Some note) =
           writeBack w (JObj (updateNotes (ensureNotes ps) (notesEntries ps)
                                (relative (cwd e) (workspaceRoot e) path) note)) note"
  using assms(1-3) ensureNotes_notes[OF assms(4)]
  by (simp add: addNoteToFileCommand_def readConfig_def Let_def)

lemma entries_empty_iff: "ns = [] \<longleftrightarrow> (\<forall>k. map_of ns k = None)"
proof (cases ns)
  case Nil
  then show ?thesis by simp
next
  case (Cons p ns')
  obtain k v where "p = (k, v)" by (cases p)
  with Cons have "map_of ns k = Some v" by simp
  with Cons show ?thesis by auto
qed

lemma updateNotes_other:
  "k \<noteq> ''notes'' \<Longrightarrow> map_of (updateNotes ps ns rel note) k = map_of ps k"
  by (simp add: updateNotes_def Let_def map_of_assignProp map_of_deleteOwn)

lemma updateNotes_entries:
  "notesOf (updateNotes ps ns rel note) k =
     (if k = rel then
        (if note = [] then None
         else if rel = ''__proto__'' \<and> map_of ns rel = None then None
         else Some (JStr note))
      else map_of ns k)"
proof (cases "note = []")
  case False
  then show ?thesis
    by (auto simp: updateNotes_def notesOf_def notesEntries_def map_of_assignProp)
next
  case True
  show ?thesis
  proof (cases "deleteOwn ns rel = []")
    case e: True
    then have "map_of (deleteOwn ns rel) k = None" by simp
    then have "k \<noteq> rel \<Longrightarrow> map_of ns k = None"
      by (simp add: map_of_deleteOwn)
    then show ?thesis
      using True e by (auto simp: updateNotes_def notesOf_def notesEntries_def map_of_deleteOwn)
  next
    case False
    then show ?thesis
      using True
      by (simp add: updateNotes_def notesOf_def notesEntries_def map_of_assignProp map_of_deleteOwn)
  qed
qed

lemma updateNotes_key:
  "map_of (updateNotes ps ns rel note) ''notes'' = None \<longleftrightarrow>
     note = [] \<and> (\<forall>k. k \<noteq> rel \<longrightarrow> map_of ns k = None)"
proof -
  have "deleteOwn ns rel = [] \<longleftrightarrow> (\<forall>k. k \<noteq> rel \<longrightarrow> map_of ns k = None)"
    by (subst entries_empty_iff) (simp add: map_of_deleteOwn)
  then show ?thesis
    by (simp add: updateNotes_def Let_def map_of_assignProp map_of_deleteOwn)
qed


lemma notesOf_ensure: "notesUsable ps \<Longrightarrow> notesEntries (ensureNotes ps) = notesEntries ps"
  using ensureNotes_notes[of ps] by (simp add: notesEntries_def)

lemma addNote_result:
  assumes "workspaceRoot e \<noteq> []" and "disk w = Some f" and "parsed f = Inr (JObj ps)"
    and "notesUsable ps" and "writable w"
  shows "\<exists>ps'. addNoteToFileCommand e w path (Some note) =
           Finished (w\<lparr>disk := Some \<lparr>content = stringify2 (JObj ps'), parsed = Inr (JObj ps')\<rparr>,
                       shown := shown w @ [InformationMessage (if note = [] then ''Note removed'' else ''Note saved'')],
                       executed := executed w @ [''context-organizer.refresh'']\<rparr>)
         \<and> notesOf ps' (relative (cwd e) (workspaceRoot e) path) =
               (if note = [] then None
                else if relative (cwd e) (workspaceRoot e) path = ''__proto__''
                        \<and> notesOf ps (relative (cwd e) (workspaceRoot e) path) = None then None
                else Some (JStr note))
         \<and> (\<forall>k. k \<noteq> relative (cwd e) (workspaceRoot e) path \<longrightarrow> notesOf ps' k = notesOf ps k)
         \<and> (map_of ps' ''notes'' = None \<longleftrightarrow>
              note = [] \<and> (\<forall>k. k \<noteq> relative (cwd e) (workspaceRoot e) path \<longrightarrow> notesOf ps k = None))
         \<and> (\<forall>k. k \<noteq> ''notes'' \<longrightarrow> map_of ps' k = map_of ps k)"
proof -
  let ?rel = "relative (cwd e) (workspaceRoot e) path"
  let ?ps' = "updateNotes (ensureNotes ps) (notesEntries ps) ?rel note"
  have run: "addNoteToFileCommand e w path (Some note) =
           Finished (w\<lparr>disk := Some \<lparr>content = stringify2 (JObj ?ps'), parsed = Inr (JObj ?ps')\<rparr>,
                       shown := shown w @ [InformationMessage (if note = [] then ''Note removed'' else ''Note saved'')],
                       executed := executed w @ [''context-organizer.refresh'']\<rparr>)"
    using addNote_object[OF assms(1-4)] assms(5) by (simp add: writeBack_def)
  have entries: "\<And>k. notesOf ?ps' k =
      (if k = ?rel then
         (if note = [] then None
          else if ?rel = ''__proto__'' \<and> notesOf ps ?rel = None then None
          else Some (JStr note))
       else notesOf ps k)"
    unfolding notesOf_def[of ps] by (rule updateNotes_entries)
  have a: "notesOf ?ps' ?rel =
      (if note = [] then None
       else if ?rel = ''__proto__'' \<and> notesOf ps ?rel = None then None
       else Some (JStr note))"
    by (subst entries) simp
  have b: "\<forall>k. k \<noteq> ?rel \<longrightarrow> notesOf ?ps' k = notesOf ps k"
    by (simp add: entries)
  have d: "map_of ?ps' ''notes'' = None \<longleftrightarrow>
              note = [] \<and> (\<forall>k. k \<noteq> ?rel \<longrightarrow> notesOf ps k = None)"
    by (simp add: updateNotes_key notesOf_def)
  have e: "\<forall>k. k \<noteq> ''notes'' \<longrightarrow> map_of ?ps' k = map_of ps k"
    by (simp add: updateNotes_other ensureNotes_other)
  from run a b d e show ?thesis by (intro exI[of _ ?ps'] conjI)
qed


lemma updateNotes_again:
  assumes "note \<noteq> []"
  shows "updateNotes (ensureNotes (updateNotes ps ns rel note))
           (notesEntries (updateNotes ps ns rel note)) rel note = updateNotes ps ns rel note"
proof -
  let ?ns1 = "assignProp ns rel (JStr note)"
  let ?ps1 = "assignProp ps ''notes'' (JObj ?ns1)"
  have ps1: "updateNotes ps ns rel note = ?ps1"
    using assms by (simp add: updateNotes_def)
  have notes1: "map_of ?ps1 ''notes'' = Some (JObj ?ns1)"
    by (simp add: map_of_assignProp)
  then have "ensureNotes ?ps1 = ?ps1" and "notesEntries ?ps1 = ?ns1"
    by (simp_all add: ensureNotes_def notesEntries_def propOf_def)
  then have "updateNotes (ensureNotes ?ps1) (notesEntries ?ps1) rel note =
               assignProp ?ps1 ''notes'' (JObj (assignProp ?ns1 rel (JStr note)))"
    using assms by (simp add: updateNotes_def)
  also have "\<dots> = ?ps1"
    by (simp only: assignProp_idem)
  finally show ?thesis
    by (simp only: ps1)
qed

lemma updateNotes_usable:
  "note \<noteq> [] \<Longrightarrow> notesUsable (updateNotes ps ns rel note)"
  by (simp add: updateNotes_def notesUsable_def map_of_assignProp)

lemma findLabel_append_Some:
  "findLabel s xs = Some j \<Longrightarrow> findLabel s (xs @ ys) = Some j"
  by (induction xs arbitrary: j) (auto split: if_splits)

lemma findLabel_append_None:
  "findLabel s xs = None \<Longrightarrow>
     findLabel s (xs @ [y]) = (if label y = s then Some (length xs) else None)"
  by (induction xs) (auto split: if_splits)

lemma findLabel_update:
  "i < length xs \<Longrightarrow> label y = label (xs ! i) \<Longrightarrow> findLabel s (xs[i := y]) = findLabel s xs"
proof (induction xs arbitrary: i)
  case Nil
  then show ?case by simp
next
  case (Cons x xs)
  then show ?case by (cases i) simp_all
qed

lemma descend_labels: "descend lvl q = Some ns \<Longrightarrow> map label ns = q"
proof (induction q arbitrary: lvl ns)
  case Nil
  then show ?case by simp
next
  case (Cons s q)
  from Cons.prems obtain i ns' where i: "findLabel s lvl = Some i"
    and d: "descend (children (lvl ! i)) q = Some ns'" and ns: "ns = lvl ! i # ns'"
    by (auto split: option.splits)
  from Cons.IH[OF d] findLabel_Some[OF i] ns show ?case by simp
qed

lemma walk_step:
  assumes "walk e config name path lvl (s # r # rest) = Inr lvl'"
  shows "(findLabel s lvl = None \<longrightarrow>
            (\<exists>cs. walk e config name path [] (r # rest) = Inr cs
                  \<and> lvl' = lvl @ [Item Folder s None None None cs]))
       \<and> (\<forall>i. findLabel s lvl = Some i \<longrightarrow>
            (\<exists>cs. walk e config name path (children (lvl ! i)) (r # rest) = Inr cs
                  \<and> lvl' = lvl[i := setChildren (lvl ! i) cs]))"
proof (cases "findLabel s lvl")
  case None
  with assms have "andThen (walk e config name path [] (r # rest))
            (\<lambda>cs. Inr (lvl @ [setChildren (newFolder s) cs])) = Inr lvl'"
    by simp
  then obtain cs where "walk e config name path [] (r # rest) = Inr cs"
      and "lvl' = lvl @ [setChildren (newFolder s) cs]"
    unfolding andThen_eq_Inr by blast
  with None show ?thesis by (simp add: newFolder_def)
next
  case (Some i)
  with assms have "andThen (walk e config name path (children (lvl ! i)) (r # rest))
            (\<lambda>cs. Inr (lvl[i := setChildren (lvl ! i) cs])) = Inr lvl'"
    by simp
  then obtain cs where "walk e config name path (children (lvl ! i)) (r # rest) = Inr cs"
      and "lvl' = lvl[i := setChildren (lvl ! i) cs]"
    unfolding andThen_eq_Inr by blast
  with Some show ?thesis by simp
qed

lemma walk_last:
  assumes "walk e config name path lvl [s] = Inr lvl'"
  shows "lvl' = lvl \<or> (findLabel s lvl = None \<and> (\<exists>f. newFile e config path name = Inr f \<and> lvl' = lvl @ [f]))"
proof (cases "findLabel s lvl")
  case None
  with assms have "andThen (newFile e config path name) (\<lambda>f. Inr (lvl @ [f])) = Inr lvl'"
    by simp
  then show ?thesis unfolding andThen_eq_Inr using None by blast
next
  case (Some i)
  with assms show ?thesis by simp
qed


lemma descend_append: "descend lvl q = Some ns \<Longrightarrow> descend (lvl @ ys) q = Some ns"
proof (cases q)
  case Nil
  assume "descend lvl q = Some ns"
  with Nil show ?thesis by simp
next
  case (Cons t q')
  assume d: "descend lvl q = Some ns"
  with Cons obtain j where j: "findLabel t lvl = Some j"
    by (auto split: option.splits)
  then have "j < length lvl" using findLabel_Some by blast
  then have "(lvl @ ys) ! j = lvl ! j" by (simp add: nth_append)
  with d Cons j show ?thesis
    by (simp add: findLabel_append_Some)
qed

lemma walk_descend_mono:
  assumes "walk e config name path lvl parts = Inr lvl'" and "descend lvl q = Some ns"
  shows "\<exists>ns'. descend lvl' q = Some ns' \<and> map kind ns' = map kind ns"
  using assms
proof (induction parts arbitrary: lvl lvl' q ns)
  case Nil
  then show ?case by simp
next
  case (Cons s parts)
  show ?case
  proof (cases parts)
    case Nil
    with Cons.prems(1) have "lvl' = lvl \<or> (\<exists>f. lvl' = lvl @ [f])"
      using walk_last by blast
    then show ?thesis
      using Cons.prems(2) descend_append by blast
  next
    case parts: (Cons r rest)
    note step = walk_step[OF Cons.prems(1)[unfolded parts]]
    show ?thesis
    proof (cases "findLabel s lvl")
      case None
      with step obtain cs where "lvl' = lvl @ [Item Folder s None None None cs]" by blast
      then show ?thesis
        using Cons.prems(2) descend_append by blast
    next
      case (Some i)
      with step obtain cs where cs: "walk e config name path (children (lvl ! i)) (r # rest) = Inr cs"
        and l: "lvl' = lvl[i := setChildren (lvl ! i) cs]" by blast
      have i: "i < length lvl" using findLabel_Some[OF Some] by simp
      show ?thesis
      proof (cases q)
        case Nil
        with Cons.prems(2) show ?thesis by simp
      next
        case q: (Cons t q')
        with Cons.prems(2) obtain j ns0 where j: "findLabel t lvl = Some j"
          and d0: "descend (children (lvl ! j)) q' = Some ns0" and ns: "ns = lvl ! j # ns0"
          by (auto split: option.splits)
        have j': "findLabel t lvl' = Some j"
          unfolding l using i j by (simp add: findLabel_update)
        show ?thesis
        proof (cases "j = i")
          case False
          then have "lvl' ! j = lvl ! j" unfolding l by simp
          with j' d0 ns q show ?thesis by simp
        next
          case True
          with d0 have "descend (children (lvl ! i)) q' = Some ns0" by simp
          from Cons.IH[unfolded parts, OF cs this] obtain ns0' where
            d1: "descend cs q' = Some ns0'" and k: "map kind ns0' = map kind ns0" by blast
          have "lvl' ! j = setChildren (lvl ! i) cs"
            unfolding l using True i by simp
          with j' d1 k ns q True show ?thesis by simp
        qed
      qed
    qed
  qed
qed

lemma walk_descend_new:
  assumes "walk e config name path lvl (pre @ rest) = Inr lvl'" and "rest \<noteq> []"
  shows "\<exists>ns. descend lvl' pre = Some ns"
  using assms
proof (induction pre arbitrary: lvl lvl')
  case Nil
  then show ?case by simp
next
  case (Cons s pre)
  from Cons.prems(2) obtain r rest' where r: "pre @ rest = r # rest'"
    by (cases "pre @ rest") simp_all
  note step = walk_step[OF Cons.prems(1)[simplified, unfolded r]]
  show ?case
  proof (cases "findLabel s lvl")
    case None
    with step obtain cs where cs: "walk e config name path [] (r # rest') = Inr cs"
      and l: "lvl' = lvl @ [Item Folder s None None None cs]" by blast
    from Cons.IH[OF cs[folded r] Cons.prems(2)] obtain ns where "descend cs pre = Some ns" by blast
    moreover have "findLabel s lvl' = Some (length lvl)"
      unfolding l using None by (simp add: findLabel_append_None)
    ultimately show ?thesis unfolding l by simp
  next
    case (Some i)
    with step obtain cs where cs: "walk e config name path (children (lvl ! i)) (r # rest') = Inr cs"
      and l: "lvl' = lvl[i := setChildren (lvl ! i) cs]" by blast
    have i: "i < length lvl" using findLabel_Some[OF Some] by simp
    from Cons.IH[OF cs[folded r] Cons.prems(2)] obtain ns where "descend cs pre = Some ns" by blast
    moreover have "findLabel s lvl' = Some i"
      unfolding l using i Some by (simp add: findLabel_update)
    ultimately show ?thesis unfolding l using i by simp
  qed
qed


lemma walk_total_encode: "\<exists>l. walk e (encode d) name path lvl parts = Inr l"
proof (induction parts arbitrary: lvl)
  case Nil
  then show ?case by simp
next
  case (Cons s parts)
  show ?case
  proof (cases parts)
    case Nil
    then show ?thesis
      by (cases "findLabel s lvl") (simp_all add: newFile_encode)
  next
    case (Cons r rest)
    show ?thesis
    proof (cases "findLabel s lvl")
      case None
      from Cons.IH[of "[]"] obtain cs where "walk e (encode d) name path [] (r # rest) = Inr cs"
        unfolding Cons by blast
      with None Cons show ?thesis by simp
    next
      case (Some i)
      from Cons.IH[of "children (lvl ! i)"] obtain cs where
        "walk e (encode d) name path (children (lvl ! i)) (r # rest) = Inr cs"
        unfolding Cons by blast
      with Some Cons show ?thesis by simp
    qed
  qed
qed

lemma pathsLoop_grouped:
  assumes "docShowFolders d"
  shows "\<exists>acc'. pathsLoop e (encode d) (Val (JBool True)) name acc (map JStr ps) = Inr acc'
           \<and> (\<forall>q ns. descend acc q = Some ns \<longrightarrow> (\<exists>ns'. descend acc' q = Some ns'))
           \<and> (\<forall>p \<in> set ps. \<forall>pre rest. split_sep p = pre @ rest \<and> rest \<noteq> [] \<longrightarrow>
                 (\<exists>ns. descend acc' pre = Some ns))"
proof (induction ps arbitrary: acc)
  case Nil
  then show ?case by simp
next
  case (Cons p ps)
  obtain acc1 where w: "walk e (encode d) name (join (workspaceRoot e # split_sep p)) acc (split_sep p) = Inr acc1"
    using walk_total_encode by blast
  then have add: "addToTree e (encode d) acc (JStr p) name = Inr acc1"
    using assms by (simp add: addToTree_def)
  from Cons.IH[of acc1] obtain acc' where
    run: "pathsLoop e (encode d) (Val (JBool True)) name acc1 (map JStr ps) = Inr acc'"
    and mono: "\<forall>q ns. descend acc1 q = Some ns \<longrightarrow> (\<exists>ns'. descend acc' q = Some ns')"
    and new: "\<forall>p \<in> set ps. \<forall>pre rest. split_sep p = pre @ rest \<and> rest \<noteq> [] \<longrightarrow>
                 (\<exists>ns. descend acc' pre = Some ns)"
    by blast
  have all: "pathsLoop e (encode d) (Val (JBool True)) name acc (map JStr (p # ps)) = Inr acc'"
    using add run by simp
  have mono': "\<forall>q ns. descend acc q = Some ns \<longrightarrow> (\<exists>ns'. descend acc' q = Some ns')"
  proof (intro allI impI)
    fix q ns assume "descend acc q = Some ns"
    from walk_descend_mono[OF w this] obtain ns1 where "descend acc1 q = Some ns1" by blast
    with mono show "\<exists>ns'. descend acc' q = Some ns'" by blast
  qed
  have first: "\<forall>pre rest. split_sep p = pre @ rest \<and> rest \<noteq> [] \<longrightarrow> (\<exists>ns. descend acc' pre = Some ns)"
  proof (intro allI impI)
    fix pre rest assume a: "split_sep p = pre @ rest \<and> rest \<noteq> []"
    with w have "walk e (encode d) name (join (workspaceRoot e # split_sep p)) acc (pre @ rest) = Inr acc1"
      by simp
    from walk_descend_new[OF this] a obtain ns1 where "descend acc1 pre = Some ns1" by blast
    with mono show "\<exists>ns. descend acc' pre = Some ns" by blast
  qed
  have new': "\<forall>p' \<in> set (p # ps). \<forall>pre rest. split_sep p' = pre @ rest \<and> rest \<noteq> [] \<longrightarrow>
                 (\<exists>ns. descend acc' pre = Some ns)"
    using first new by simp
  from all mono' new' show ?case by blast
qed

lemma handleLoadConfig_grouped:
  assumes "parsed f = Inr (encode d)" and "docShowFolders d"
    and "distinct (map fst (docContexts d))"
  shows "handleLoadConfig e f [] =
           (map (\<lambda>(name, ps). newSection name (groupedItems e d name ps)) (docContexts d), None)"
proof -
  have "sectionsLoop e (encode d) (Val (JBool True)) (Val (encodeContexts (docContexts d))) []
          (map fst (docContexts d)) =
        ([] @ map (\<lambda>(name, ps). newSection name (groupedItems e d name ps)) (docContexts d), None)"
    using assms(3)
  proof (rule sectionsLoop_encode)
    show "set (docContexts d) \<subseteq> set (docContexts d)" by simp
    fix name ps
    from pathsLoop_grouped[OF assms(2), of e name "[]" ps]
    show "pathsLoop e (encode d) (Val (JBool True)) name [] (map JStr ps) = Inr (groupedItems e d name ps)"
      unfolding groupedItems_def by auto
  qed
  then show ?thesis
    using assms(1,2) by (simp add: handleLoadConfig_def readConfig_def)
qed

lemma groupedItems_descend:
  assumes "docShowFolders d" and "p \<in> set ps" and "split_sep p = pre @ rest" and "rest \<noteq> []"
  shows "\<exists>ns. descend (groupedItems e d name ps) pre = Some ns \<and> map label ns = pre"
proof -
  from pathsLoop_grouped[OF assms(1), of e name "[]" ps] obtain acc' where
    "pathsLoop e (encode d) (Val (JBool True)) name [] (map JStr ps) = Inr acc'"
    and "\<forall>p \<in> set ps. \<forall>pre rest. split_sep p = pre @ rest \<and> rest \<noteq> [] \<longrightarrow>
                 (\<exists>ns. descend acc' pre = Some ns)"
    by blast
  then have "groupedItems e d name ps = acc'" and "\<exists>ns. descend acc' pre = Some ns"
    using assms(2-4) by (simp add: groupedItems_def, blast)
  then show ?thesis using descend_labels by blast
qed



lemma stringify2_starts:
  assumes "ps \<noteq> []"
  shows "take 5 (stringify2 (JObj ps)) = [CHR ''{'', CHR 0x0A, CHR '' '', CHR '' '', CHR 0x22]"
proof (cases ps)
  case Nil
  with assms show ?thesis by simp
next
  case (Cons x xs)
  obtain k v where x: "x = (k, v)" by (cases x)
  have "[0..<Suc (length xs)] = 0 # [Suc 0..<Suc (length xs)]"
    by (rule upt_conv_Cons) simp
  then show ?thesis
    using Cons x
    by (simp add: stringify2_def lines_def indentation_def quote_def numeral_2_eq_2 del: upt_Suc)
qed

lemmas path_eval = extname_def basename_def sep_def join_def normalize_def isAbsolute_def
  relative_def resolveSegments_def Let_def

section \<open>Flat mode\<close>

text \<open>
  C1. With \<^verbatim>\<open>showFolders\<close> false, building the tree gives one Section per context key, in
  the order of the keys, and under each Section one File item per path entry of that context
  \<^emph>\<open>whose name has an extension\<close> (\<^verbatim>\<open>path.extname\<close> is not empty), in the order of the list,
  each File without children; there is no Folder item and no notification. The guard
  \<^verbatim>\<open>showFolders || path.extname(filePath)\<close> of \<^verbatim>\<open>handleLoadConfig\<close> leaves the other
  entries out.
\<close>

theorem flat_tree_one_file_per_path_with_extension:
  assumes "disk w = Some f" and "parsed f = Inr (encode d)" and "\<not> docShowFolders d"
    and "distinct (map fst (docContexts d))"
  shows "shown (loadConfig e w) = shown w
       \<and> map kind (items (loadConfig e w)) = replicate (length (docContexts d)) Section
       \<and> map label (items (loadConfig e w)) = map fst (docContexts d)
       \<and> map (\<lambda>section. map filePath (children section)) (items (loadConfig e w)) =
           map (\<lambda>(name, ps). map (\<lambda>p. Some (join (workspaceRoot e # split_sep p)))
                                 (filter (\<lambda>p. extname p \<noteq> []) ps)) (docContexts d)
       \<and> (\<forall>section \<in> set (items (loadConfig e w)).
            \<forall>c \<in> set (children section). kind c = File \<and> children c = [])"
proof -
  have its: "items (loadConfig e w) =
               map (\<lambda>(name, ps). newSection name (flatFiles e d name ps)) (docContexts d)"
    and sh: "shown (loadConfig e w) = shown w"
    using handleLoadConfig_flat[OF assms(2-4)] assms(1) by (simp_all add: loadConfig_def)
  have "map kind (items (loadConfig e w)) = replicate (length (docContexts d)) Section"
    unfolding its by (simp add: newSection_def case_prod_unfold comp_def map_replicate_const)
  moreover have "map label (items (loadConfig e w)) = map fst (docContexts d)"
    unfolding its by (simp add: newSection_def case_prod_unfold comp_def)
  moreover have "map (\<lambda>section. map filePath (children section)) (items (loadConfig e w)) =
           map (\<lambda>(name, ps). map (\<lambda>p. Some (join (workspaceRoot e # split_sep p)))
                                 (filter (\<lambda>p. extname p \<noteq> []) ps)) (docContexts d)"
    unfolding its by (simp add: newSection_def case_prod_unfold comp_def flatFiles_paths)
  moreover have "\<forall>section \<in> set (items (loadConfig e w)).
            \<forall>c \<in> set (children section). kind c = File \<and> children c = []"
    unfolding its by (auto simp: newSection_def dest: flatFiles_leaves)
  ultimately show ?thesis using sh by blast
qed

text \<open>
  The theorem at the document \<^verbatim>\<open>{"contexts": {"A": ["src/a.ts", "Makefile", "b.md"]}}\<close> in
  flat mode: the two entries with an extension give the two files, in their order.
\<close>

theorem flat_tree_witness:
  \<open>map label (items (loadConfig \<lparr>workspaceRoot = ''/w'', cwd = ''/w''\<rparr>
        \<lparr>disk = Some \<lparr>content = ''{"contexts":{"A":["src/a.ts","Makefile","b.md"]},"configs":{"showFolders":false,"orderAlphabetically":false}}'',
           parsed = Inr (encode \<lparr>docContexts = [(''A'', [''src/a.ts'', ''Makefile'', ''b.md''])],
                     docNotes = None, docShowFolders = False, docOrderAlphabetically = False\<rparr>)\<rparr>,
         writable = True, items = [], shown = [], executed = []\<rparr>)) = [''A'']
   \<and> map (\<lambda>section. map filePath (children section))
        (items (loadConfig \<lparr>workspaceRoot = ''/w'', cwd = ''/w''\<rparr>
        \<lparr>disk = Some \<lparr>content = ''{"contexts":{"A":["src/a.ts","Makefile","b.md"]},"configs":{"showFolders":false,"orderAlphabetically":false}}'',
           parsed = Inr (encode \<lparr>docContexts = [(''A'', [''src/a.ts'', ''Makefile'', ''b.md''])],
                     docNotes = None, docShowFolders = False, docOrderAlphabetically = False\<rparr>)\<rparr>,
         writable = True, items = [], shown = [], executed = []\<rparr>)) = [[Some ''/w/src/a.ts'', Some ''/w/b.md'']]\<close>
  using flat_tree_one_file_per_path_with_extension
    [of \<open>\<lparr>disk = Some \<lparr>content = ''{"contexts":{"A":["src/a.ts","Makefile","b.md"]},"configs":{"showFolders":false,"orderAlphabetically":false}}'',
           parsed = Inr (encode \<lparr>docContexts = [(''A'', [''src/a.ts'', ''Makefile'', ''b.md''])],
                     docNotes = None, docShowFolders = False, docOrderAlphabetically = False\<rparr>)\<rparr>,
         writable = True, items = [], shown = [], executed = []\<rparr>\<close>
        \<open>\<lparr>content = ''{"contexts":{"A":["src/a.ts","Makefile","b.md"]},"configs":{"showFolders":false,"orderAlphabetically":false}}'',
           parsed = Inr (encode \<lparr>docContexts = [(''A'', [''src/a.ts'', ''Makefile'', ''b.md''])],
                     docNotes = None, docShowFolders = False, docOrderAlphabetically = False\<rparr>)\<rparr>\<close>
        "\<lparr>docContexts = [(''A'', [''src/a.ts'', ''Makefile'', ''b.md''])],
                     docNotes = None, docShowFolders = False, docOrderAlphabetically = False\<rparr>"
        "\<lparr>workspaceRoot = ''/w'', cwd = ''/w''\<rparr>"]
  by (simp add: path_eval)

text \<open>
  The claim as first stated, one File item per path entry, fails on an entry without an
  extension: of the two entries of context \<^verbatim>\<open>A\<close> only \<^verbatim>\<open>src/a.ts\<close> gets a File item.
\<close>

theorem flat_tree_skips_extensionless:
  \<open>items (loadConfig \<lparr>workspaceRoot = ''/w'', cwd = ''/w''\<rparr>
        \<lparr>disk = Some \<lparr>content = ''{"contexts":{"A":["src/a.ts","Makefile"]},"configs":{"showFolders":false,"orderAlphabetically":false}}'',
           parsed = Inr (encode
           \<lparr>docContexts = [(''A'', [''src/a.ts'', ''Makefile''])], docNotes = None,
            docShowFolders = False, docOrderAlphabetically = False\<rparr>)\<rparr>,
         writable = True, items = [], shown = [], executed = []\<rparr>) =
   [Item Section ''A'' None None None
      [Item File ''a.ts'' (Some ''/w/src/a.ts'') (Some ''/w/src/a.tsA'') (Some ''src'') []]]\<close>
  by (simp add: loadConfig_def handleLoadConfig_def readConfig_def encodeContexts_def propOf_def
        addToTree_def newFile_encode newSection_def path_eval)

section \<open>Grouped mode\<close>

text \<open>
  C2. With \<^verbatim>\<open>showFolders\<close> true, on a well-formed document: loading shows no notification
  and gives one Section per context key; below a Section no item has two Folder children
  with the same label; and every leading part of the segments of a path of the context can
  be followed from the Section, each segment by the first child that carries it as its
  label, so that the paths of a context with a common leading part go through the same
  items. A step of the loop of \<^verbatim>\<open>addToTree\<close> on a segment that is not the last one appends
  one Folder with that label when no child of the level carries the label, and otherwise
  goes on below the first child that carries it, whatever the kind of that child, without
  adding an item at the level. The document \<^verbatim>\<open>{"A": ["x/y.ts", "x/z.ts"]}\<close> gives Section
  \<^verbatim>\<open>A\<close> with the single Folder \<^verbatim>\<open>x\<close>, whose children are the Files \<^verbatim>\<open>y.ts\<close> and \<^verbatim>\<open>z.ts\<close> in
  that order.
\<close>

theorem grouped_tree_shares_nodes:
  assumes "disk w = Some f" and "parsed f = Inr (encode d)" and "docShowFolders d"
    and "distinct (map fst (docContexts d))"
  shows \<open>shown (loadConfig e w) = shown w
       \<and> map label (items (loadConfig e w)) = map fst (docContexts d)
       \<and> (\<forall>section \<in> set (items (loadConfig e w)). kind section = Section \<and> foldersUnique section)
       \<and> (\<forall>i < length (docContexts d). \<forall>p \<in> set (snd (docContexts d ! i)). \<forall>pre rest.
             split_sep p = pre @ rest \<and> rest \<noteq> [] \<longrightarrow>
             (\<exists>ns. descend (children (items (loadConfig e w) ! i)) pre = Some ns \<and> map label ns = pre))
       \<and> (\<forall>name path lvl lvl' s r rest.
             walk e (encode d) name path lvl (s # r # rest) = Inr lvl' \<longrightarrow>
             (findLabel s lvl = None \<longrightarrow> (\<exists>cs. lvl' = lvl @ [Item Folder s None None None cs]))
             \<and> (\<forall>j. findLabel s lvl = Some j \<longrightarrow> (\<exists>cs. lvl' = lvl[j := setChildren (lvl ! j) cs])))
       \<and> items (loadConfig \<lparr>workspaceRoot = ''/w'', cwd = ''/w''\<rparr>
        \<lparr>disk = Some \<lparr>content = ''{"contexts":{"A":["x/y.ts","x/z.ts"]},"configs":{"showFolders":true,"orderAlphabetically":false}}'',
           parsed = Inr (encode
           \<lparr>docContexts = [(''A'', [''x/y.ts'', ''x/z.ts''])], docNotes = None,
            docShowFolders = True, docOrderAlphabetically = False\<rparr>)\<rparr>,
         writable = True, items = [], shown = [], executed = []\<rparr>) =
   [Item Section ''A'' None None None
      [Item Folder ''x'' None None None
        [Item File ''y.ts'' (Some ''/w/x/y.ts'') (Some ''/w/x/y.tsA'') None [],
         Item File ''z.ts'' (Some ''/w/x/z.ts'') (Some ''/w/x/z.tsA'') None []]]]\<close>
proof -
  have its: "items (loadConfig e w) =
               map (\<lambda>(name, ps). newSection name (groupedItems e d name ps)) (docContexts d)"
    and sh: "shown (loadConfig e w) = shown w"
    using handleLoadConfig_grouped[OF assms(2-4)] assms(1) by (simp_all add: loadConfig_def)
  have labels: "map label (items (loadConfig e w)) = map fst (docContexts d)"
    unfolding its by (simp add: newSection_def case_prod_unfold comp_def)
  have unique: "\<forall>section \<in> set (items (loadConfig e w)). kind section = Section \<and> foldersUnique section"
    by (rule loadConfig_unique)
  have shared: "\<forall>i < length (docContexts d). \<forall>p \<in> set (snd (docContexts d ! i)). \<forall>pre rest.
             split_sep p = pre @ rest \<and> rest \<noteq> [] \<longrightarrow>
             (\<exists>ns. descend (children (items (loadConfig e w) ! i)) pre = Some ns \<and> map label ns = pre)"
  proof (intro allI impI ballI)
    fix i p pre rest
    assume i: "i < length (docContexts d)" and p: "p \<in> set (snd (docContexts d ! i))"
      and s: "split_sep p = pre @ rest \<and> rest \<noteq> []"
    obtain name ps where c: "docContexts d ! i = (name, ps)" by (cases "docContexts d ! i")
    have "children (items (loadConfig e w) ! i) = groupedItems e d name ps"
      unfolding its using i c by (simp add: newSection_def)
    moreover have "\<exists>ns. descend (groupedItems e d name ps) pre = Some ns \<and> map label ns = pre"
      using assms(3) p s c by (intro groupedItems_descend[of d p ps pre rest]) simp_all
    ultimately show "\<exists>ns. descend (children (items (loadConfig e w) ! i)) pre = Some ns \<and> map label ns = pre"
      by simp
  qed
  have step: "\<forall>name path lvl lvl' s r rest.
             walk e (encode d) name path lvl (s # r # rest) = Inr lvl' \<longrightarrow>
             (findLabel s lvl = None \<longrightarrow> (\<exists>cs. lvl' = lvl @ [Item Folder s None None None cs]))
             \<and> (\<forall>j. findLabel s lvl = Some j \<longrightarrow> (\<exists>cs. lvl' = lvl[j := setChildren (lvl ! j) cs]))"
  proof (intro allI impI)
    fix name path lvl lvl' s r rest
    assume "walk e (encode d) name path lvl (s # r # rest) = Inr lvl'"
    from walk_step[OF this]
    show "(findLabel s lvl = None \<longrightarrow> (\<exists>cs. lvl' = lvl @ [Item Folder s None None None cs]))
             \<and> (\<forall>j. findLabel s lvl = Some j \<longrightarrow> (\<exists>cs. lvl' = lvl[j := setChildren (lvl ! j) cs]))"
      by blast
  qed
  have scenario: \<open>items (loadConfig \<lparr>workspaceRoot = ''/w'', cwd = ''/w''\<rparr>
        \<lparr>disk = Some \<lparr>content = ''{"contexts":{"A":["x/y.ts","x/z.ts"]},"configs":{"showFolders":true,"orderAlphabetically":false}}'',
           parsed = Inr (encode
           \<lparr>docContexts = [(''A'', [''x/y.ts'', ''x/z.ts''])], docNotes = None,
            docShowFolders = True, docOrderAlphabetically = False\<rparr>)\<rparr>,
         writable = True, items = [], shown = [], executed = []\<rparr>) =
   [Item Section ''A'' None None None
      [Item Folder ''x'' None None None
        [Item File ''y.ts'' (Some ''/w/x/y.ts'') (Some ''/w/x/y.tsA'') None [],
         Item File ''z.ts'' (Some ''/w/x/z.ts'') (Some ''/w/x/z.tsA'') None []]]]\<close>
    by (simp add: loadConfig_def handleLoadConfig_def readConfig_def encodeContexts_def propOf_def
        addToTree_def newFile_encode newSection_def newFolder_def noteTruthy_def path_eval)
  from sh labels unique shared step scenario show ?thesis
    by (intro conjI)
qed

text \<open>
  The theorem at a document with nested folders, \<^verbatim>\<open>x/y.ts\<close>, \<^verbatim>\<open>x/q/r.ts\<close>, \<^verbatim>\<open>x/q/s.ts\<close> and
  \<^verbatim>\<open>lib/x/t.ts\<close>: the leading part \<^verbatim>\<open>x/q\<close> of the second path can be followed from the
  Section.
\<close>

theorem grouped_tree_witness:
  \<open>map label (items (loadConfig \<lparr>workspaceRoot = ''/w'', cwd = ''/w''\<rparr>
        \<lparr>disk = Some \<lparr>content = ''{"contexts":{"A":["x/y.ts","x/q/r.ts","x/q/s.ts","lib/x/t.ts"]},"configs":{"showFolders":true,"orderAlphabetically":false}}'',
           parsed = Inr (encode
           \<lparr>docContexts = [(''A'', [''x/y.ts'', ''x/q/r.ts'', ''x/q/s.ts'', ''lib/x/t.ts''])], docNotes = None,
            docShowFolders = True, docOrderAlphabetically = False\<rparr>)\<rparr>,
         writable = True, items = [], shown = [], executed = []\<rparr>)) = [''A'']
   \<and> (\<exists>ns. descend (children (items (loadConfig \<lparr>workspaceRoot = ''/w'', cwd = ''/w''\<rparr>
        \<lparr>disk = Some \<lparr>content = ''{"contexts":{"A":["x/y.ts","x/q/r.ts","x/q/s.ts","lib/x/t.ts"]},"configs":{"showFolders":true,"orderAlphabetically":false}}'',
           parsed = Inr (encode
           \<lparr>docContexts = [(''A'', [''x/y.ts'', ''x/q/r.ts'', ''x/q/s.ts'', ''lib/x/t.ts''])], docNotes = None,
            docShowFolders = True, docOrderAlphabetically = False\<rparr>)\<rparr>,
         writable = True, items = [], shown = [], executed = []\<rparr>) ! 0)) [''x'', ''q''] = Some ns
         \<and> map label ns = [''x'', ''q''])\<close>
proof -
  note inst = grouped_tree_shares_nodes
    [of \<open>\<lparr>disk = Some \<lparr>content = ''{"contexts":{"A":["x/y.ts","x/q/r.ts","x/q/s.ts","lib/x/t.ts"]},"configs":{"showFolders":true,"orderAlphabetically":false}}'',
           parsed = Inr (encode
           \<lparr>docContexts = [(''A'', [''x/y.ts'', ''x/q/r.ts'', ''x/q/s.ts'', ''lib/x/t.ts''])], docNotes = None,
            docShowFolders = True, docOrderAlphabetically = False\<rparr>)\<rparr>,
         writable = True, items = [], shown = [], executed = []\<rparr>\<close>
        \<open>\<lparr>content = ''{"contexts":{"A":["x/y.ts","x/q/r.ts","x/q/s.ts","lib/x/t.ts"]},"configs":{"showFolders":true,"orderAlphabetically":false}}'',
           parsed = Inr (encode
           \<lparr>docContexts = [(''A'', [''x/y.ts'', ''x/q/r.ts'', ''x/q/s.ts'', ''lib/x/t.ts''])], docNotes = None,
            docShowFolders = True, docOrderAlphabetically = False\<rparr>)\<rparr>\<close>
        \<open>\<lparr>docContexts = [(''A'', [''x/y.ts'', ''x/q/r.ts'', ''x/q/s.ts'', ''lib/x/t.ts''])], docNotes = None,
            docShowFolders = True, docOrderAlphabetically = False\<rparr>\<close>
        \<open>\<lparr>workspaceRoot = ''/w'', cwd = ''/w''\<rparr>\<close>]
  have labels: \<open>map label (items (loadConfig \<lparr>workspaceRoot = ''/w'', cwd = ''/w''\<rparr>
        \<lparr>disk = Some \<lparr>content = ''{"contexts":{"A":["x/y.ts","x/q/r.ts","x/q/s.ts","lib/x/t.ts"]},"configs":{"showFolders":true,"orderAlphabetically":false}}'',
           parsed = Inr (encode
           \<lparr>docContexts = [(''A'', [''x/y.ts'', ''x/q/r.ts'', ''x/q/s.ts'', ''lib/x/t.ts''])], docNotes = None,
            docShowFolders = True, docOrderAlphabetically = False\<rparr>)\<rparr>,
         writable = True, items = [], shown = [], executed = []\<rparr>)) = [''A'']\<close>
    using inst by simp
  have \<open>split_sep ''x/q/r.ts'' = [''x'', ''q''] @ [''r.ts''] \<and> [''r.ts''] \<noteq> []\<close>
    by (simp add: sep_def)
  then have \<open>\<exists>ns. descend (children (items (loadConfig \<lparr>workspaceRoot = ''/w'', cwd = ''/w''\<rparr>
        \<lparr>disk = Some \<lparr>content = ''{"contexts":{"A":["x/y.ts","x/q/r.ts","x/q/s.ts","lib/x/t.ts"]},"configs":{"showFolders":true,"orderAlphabetically":false}}'',
           parsed = Inr (encode
           \<lparr>docContexts = [(''A'', [''x/y.ts'', ''x/q/r.ts'', ''x/q/s.ts'', ''lib/x/t.ts''])], docNotes = None,
            docShowFolders = True, docOrderAlphabetically = False\<rparr>)\<rparr>,
         writable = True, items = [], shown = [], executed = []\<rparr>) ! 0)) [''x'', ''q''] = Some ns
         \<and> map label ns = [''x'', ''q'']\<close>
    using inst[THEN conjunct2, THEN conjunct2, THEN conjunct2, THEN conjunct1, rule_format,
              of 0 "''x/q/r.ts''" "[''x'', ''q'']" "[''r.ts'']"]
    by simp
  with labels show ?thesis by simp
qed

text \<open>
  The claim as first stated, one shared Folder per shared leading segment, fails when a
  File already carries the label: \<^verbatim>\<open>a/b.ts\<close> and \<^verbatim>\<open>a/c.ts\<close> share the segment \<^verbatim>\<open>a\<close>, and both go
  below the File \<^verbatim>\<open>a\<close> of the first path; the tree has no Folder.
\<close>

theorem shared_segment_without_folder:
  \<open>items (loadConfig \<lparr>workspaceRoot = ''/w'', cwd = ''/w''\<rparr>
        \<lparr>disk = Some \<lparr>content = ''{"contexts":{"A":["a","a/b.ts","a/c.ts"]},"configs":{"showFolders":true,"orderAlphabetically":false}}'',
           parsed = Inr (encode
           \<lparr>docContexts = [(''A'', [''a'', ''a/b.ts'', ''a/c.ts''])], docNotes = None,
            docShowFolders = True, docOrderAlphabetically = False\<rparr>)\<rparr>,
         writable = True, items = [], shown = [], executed = []\<rparr>) =
   [Item Section ''A'' None None None
      [Item File ''a'' (Some ''/w/a'') (Some ''/w/aA'') None 
        [Item File ''b.ts'' (Some ''/w/a/b.ts'') (Some ''/w/a/b.tsA'') None [],
         Item File ''c.ts'' (Some ''/w/a/c.ts'') (Some ''/w/a/c.tsA'') None []]]]\<close>
  by (simp add: loadConfig_def handleLoadConfig_def readConfig_def encodeContexts_def propOf_def
        addToTree_def newFile_encode newSection_def newFolder_def noteTruthy_def path_eval)

section \<open>Reuse by label\<close>

text \<open>
  C9. Reuse looks at the label only. With \<^verbatim>\<open>showFolders\<close> true and the context
  \<^verbatim>\<open>["a", "a/b.ts"]\<close>, the first path gives the File \<^verbatim>\<open>a\<close>, and the second path finds it
  by its label and puts the File \<^verbatim>\<open>b.ts\<close> among its children: a File item with a child.
\<close>

theorem file_reused_as_parent:
  \<open>items (loadConfig \<lparr>workspaceRoot = ''/w'', cwd = ''/w''\<rparr>
        \<lparr>disk = Some \<lparr>content = ''{"contexts":{"A":["a","a/b.ts"]},"configs":{"showFolders":true,"orderAlphabetically":false}}'',
           parsed = Inr (encode
           \<lparr>docContexts = [(''A'', [''a'', ''a/b.ts''])], docNotes = None,
            docShowFolders = True, docOrderAlphabetically = False\<rparr>)\<rparr>,
         writable = True, items = [], shown = [], executed = []\<rparr>) =
   [Item Section ''A'' None None None
      [Item File ''a'' (Some ''/w/a'') (Some ''/w/aA'') None
        [Item File ''b.ts'' (Some ''/w/a/b.ts'') (Some ''/w/a/b.tsA'') None []]]]\<close>
  by (simp add: loadConfig_def handleLoadConfig_def readConfig_def encodeContexts_def propOf_def
        addToTree_def newFile_encode newSection_def newFolder_def noteTruthy_def path_eval)


section \<open>The description of a File\<close>

text \<open>
  C6. With \<^verbatim>\<open>showFolders\<close> true the constructor of \<^verbatim>\<open>File\<close> sets the note glyph when
  \<^verbatim>\<open>config.notes && config.notes[relativePath]\<close> is truthy, a test that also reads what every
  object inherits. With a note for \<^verbatim>\<open>x/y.ts\<close> only, the File \<^verbatim>\<open>constructor\<close> gets the note
  glyph as its description although the notes hold nothing for its relative path
  \<^verbatim>\<open>constructor\<close>, while the File \<^verbatim>\<open>README\<close> gets no description.
\<close>

theorem inherited_member_shown_as_note:
  \<open>items (loadConfig \<lparr>workspaceRoot = ''/w'', cwd = ''/w''\<rparr>
        \<lparr>disk = Some \<lparr>content = ''{"contexts":{"A":["constructor","README"]},"notes":{"x/y.ts":"todo"},"configs":{"showFolders":true,"orderAlphabetically":false}}'',
           parsed = Inr (encode
           \<lparr>docContexts = [(''A'', [''constructor'', ''README''])],
            docNotes = Some [(''x/y.ts'', ''todo'')],
            docShowFolders = True, docOrderAlphabetically = False\<rparr>)\<rparr>,
         writable = True, items = [], shown = [], executed = []\<rparr>) =
   [Item Section ''A'' None None None
      [Item File ''constructor'' (Some ''/w/constructor'') (Some ''/w/constructorA'') (Some noteGlyph) [],
       Item File ''README'' (Some ''/w/README'') (Some ''/w/READMEA'') None []]]
   \<and> relative ''/w'' ''/w'' ''/w/constructor'' = ''constructor''
   \<and> docNote \<lparr>docContexts = [(''A'', [''constructor'', ''README''])],
            docNotes = Some [(''x/y.ts'', ''todo'')],
            docShowFolders = True, docOrderAlphabetically = False\<rparr> ''constructor'' = None\<close>
  by (simp add: loadConfig_def handleLoadConfig_def readConfig_def encodeContexts_def propOf_def
        addToTree_def newFile_encode newSection_def newFolder_def noteTruthy_def docNote_def
        objectPrototypeNames_def path_eval)
section \<open>Errors while loading\<close>





section \<open>The absent file\<close>

text \<open>
  C7. Loading never writes: the file on disk and the commands run are as before. When the
  configuration file does not exist, loading shows the warning and leaves an empty tree; the
  file still does not exist afterwards.
\<close>

theorem absent_file_warns_and_is_not_created:
  "disk (loadConfig e w) = disk w \<and> writable (loadConfig e w) = writable w
   \<and> executed (loadConfig e w) = executed w
   \<and> (disk w = None \<longrightarrow>
        loadConfig e w = w\<lparr>items := [], shown := shown w @ [WarningMessage
     ''File contexts.json was not found in the .vscode folder, so it has been created for you.'']\<rparr>)"
  by (cases "disk w"; cases "handleLoadConfig e (the (disk w)) []"; cases "snd (handleLoadConfig e (the (disk w)) [])")
     (simp_all add: loadConfig_def notFoundWarning_def)


theorem absent_file_witness:
  \<open>loadConfig \<lparr>workspaceRoot = ''/w'', cwd = ''/w''\<rparr>
      \<lparr>disk = None, writable = True,
       items = [Item Section ''Old'' None None None []], shown = [], executed = []\<rparr>
    = \<lparr>disk = None, writable = True, items = [],
       shown = [WarningMessage
         ''File contexts.json was not found in the .vscode folder, so it has been created for you.''],
       executed = []\<rparr>\<close>
  using absent_file_warns_and_is_not_created
    [of \<open>\<lparr>workspaceRoot = ''/w'', cwd = ''/w''\<rparr>\<close>
        \<open>\<lparr>disk = None, writable = True,
       items = [Item Section ''Old'' None None None []], shown = [], executed = []\<rparr>\<close>]
  by simp

section \<open>Notes written by the command\<close>

text \<open>
  C4. When the command runs to its write on a parsed object (whose \<^verbatim>\<open>notes\<close> is an object,
  missing or falsy), the document it writes never has the empty string as the note of the
  target path: that entry is the submitted text when the text is not empty, and is absent
  when the text is empty. (The one path that takes no note is \<^verbatim>\<open>__proto__\<close>: assigning a
  string to it on an object without such a key of its own stores nothing.) The entries of
  the other paths are written back as they were read, so a notes map without an empty
  string stays so; and the \<^verbatim>\<open>notes\<close> key is removed exactly when the text is empty and no
  other path has an entry.
\<close>

theorem target_note_entry_never_empty:
  assumes "workspaceRoot e \<noteq> []" and "disk w = Some f" and "parsed f = Inr (JObj ps)"
    and "notesUsable ps" and "writable w"
  shows "\<exists>ps'. addNoteToFileCommand e w path (Some note) =
           Finished (w\<lparr>disk := Some \<lparr>content = stringify2 (JObj ps'), parsed = Inr (JObj ps')\<rparr>,
                       shown := shown w @ [InformationMessage (if note = [] then ''Note removed'' else ''Note saved'')],
                       executed := executed w @ [''context-organizer.refresh'']\<rparr>)
         \<and> notesOf ps' (relative (cwd e) (workspaceRoot e) path) \<noteq> Some (JStr [])
         \<and> notesOf ps' (relative (cwd e) (workspaceRoot e) path) =
               (if note = [] then None
                else if relative (cwd e) (workspaceRoot e) path = ''__proto__''
                        \<and> notesOf ps (relative (cwd e) (workspaceRoot e) path) = None then None
                else Some (JStr note))
         \<and> (\<forall>k. k \<noteq> relative (cwd e) (workspaceRoot e) path \<longrightarrow> notesOf ps' k = notesOf ps k)
         \<and> ((\<forall>k. notesOf ps k \<noteq> Some (JStr [])) \<longrightarrow> (\<forall>k. notesOf ps' k \<noteq> Some (JStr [])))
         \<and> (map_of ps' ''notes'' = None \<longleftrightarrow>
              note = [] \<and> (\<forall>k. k \<noteq> relative (cwd e) (workspaceRoot e) path \<longrightarrow> notesOf ps k = None))"
proof -
  let ?rel = "relative (cwd e) (workspaceRoot e) path"
  from addNote_result[OF assms, of path "note"] obtain ps' where
    run: "addNoteToFileCommand e w path (Some note) =
           Finished (w\<lparr>disk := Some \<lparr>content = stringify2 (JObj ps'), parsed = Inr (JObj ps')\<rparr>,
                       shown := shown w @ [InformationMessage (if note = [] then ''Note removed'' else ''Note saved'')],
                       executed := executed w @ [''context-organizer.refresh'']\<rparr>)"
    and a: "notesOf ps' ?rel =
               (if note = [] then None
                else if ?rel = ''__proto__'' \<and> notesOf ps ?rel = None then None
                else Some (JStr note))"
    and b: "\<forall>k. k \<noteq> ?rel \<longrightarrow> notesOf ps' k = notesOf ps k"
    and d: "map_of ps' ''notes'' = None \<longleftrightarrow>
              note = [] \<and> (\<forall>k. k \<noteq> ?rel \<longrightarrow> notesOf ps k = None)"
    by (elim exE conjE)
  have c: "notesOf ps' ?rel \<noteq> Some (JStr [])"
    by (subst a) simp
  have keep: "(\<forall>k. notesOf ps k \<noteq> Some (JStr [])) \<longrightarrow> (\<forall>k. notesOf ps' k \<noteq> Some (JStr []))"
  proof (intro impI allI)
    fix k assume h: "\<forall>k. notesOf ps k \<noteq> Some (JStr [])"
    show "notesOf ps' k \<noteq> Some (JStr [])"
    proof (cases "k = ?rel")
      case True
      with c show ?thesis by simp
    next
      case False
      with b h show ?thesis by simp
    qed
  qed
  from run c a b keep d show ?thesis
    by (intro exI[of _ ps'] conjI)
qed

text \<open>
  The theorem at a document whose only note is the one of \<^verbatim>\<open>x/y.ts\<close>, with the empty
  string submitted for that file, and the file that is written: no entry and no \<^verbatim>\<open>notes\<close>
  key are left.
\<close>

theorem target_note_witness:
  \<open>(\<exists>ps'. addNoteToFileCommand (\<lparr>workspaceRoot = ''/w'', cwd = ''/w''\<rparr>) (\<lparr>disk = Some \<lparr>content = ''{"contexts":{"A":["x/y.ts","x/z.ts"]},"notes":{"x/y.ts":"todo"},"configs":{"showFolders":true}}'',
      parsed = Inr (JObj
        [(''contexts'', JObj [(''A'', JArr [JStr ''x/y.ts'', JStr ''x/z.ts''])]),
         (''notes'', JObj [(''x/y.ts'', JStr ''todo'')]),
         (''configs'', JObj [(''showFolders'', JBool True)])])\<rparr>,
     writable = True, items = [], shown = [], executed = []\<rparr>) ''/w/x/y.ts'' (Some ([]::string)) =
           Finished ((\<lparr>disk = Some \<lparr>content = ''{"contexts":{"A":["x/y.ts","x/z.ts"]},"notes":{"x/y.ts":"todo"},"configs":{"showFolders":true}}'',
      parsed = Inr (JObj
        [(''contexts'', JObj [(''A'', JArr [JStr ''x/y.ts'', JStr ''x/z.ts''])]),
         (''notes'', JObj [(''x/y.ts'', JStr ''todo'')]),
         (''configs'', JObj [(''showFolders'', JBool True)])])\<rparr>,
     writable = True, items = [], shown = [], executed = []\<rparr>)\<lparr>disk := Some \<lparr>content = stringify2 (JObj ps'), parsed = Inr (JObj ps')\<rparr>,
                       shown := shown (\<lparr>disk = Some \<lparr>content = ''{"contexts":{"A":["x/y.ts","x/z.ts"]},"notes":{"x/y.ts":"todo"},"configs":{"showFolders":true}}'',
      parsed = Inr (JObj
        [(''contexts'', JObj [(''A'', JArr [JStr ''x/y.ts'', JStr ''x/z.ts''])]),
         (''notes'', JObj [(''x/y.ts'', JStr ''todo'')]),
         (''configs'', JObj [(''showFolders'', JBool True)])])\<rparr>,
     writable = True, items = [], shown = [], executed = []\<rparr>) @ [InformationMessage (if ([]::string) = [] then ''Note removed'' else ''Note saved'')],
                       executed := executed (\<lparr>disk = Some \<lparr>content = ''{"contexts":{"A":["x/y.ts","x/z.ts"]},"notes":{"x/y.ts":"todo"},"configs":{"showFolders":true}}'',
      parsed = Inr (JObj
        [(''contexts'', JObj [(''A'', JArr [JStr ''x/y.ts'', JStr ''x/z.ts''])]),
         (''notes'', JObj [(''x/y.ts'', JStr ''todo'')]),
         (''configs'', JObj [(''showFolders'', JBool True)])])\<rparr>,
     writable = True, items = [], shown = [], executed = []\<rparr>) @ [''context-organizer.refresh'']\<rparr>)
         \<and> notesOf ps' (relative (cwd (\<lparr>workspaceRoot = ''/w'', cwd = ''/w''\<rparr>)) (workspaceRoot (\<lparr>workspaceRoot = ''/w'', cwd = ''/w''\<rparr>)) ''/w/x/y.ts'') \<noteq> Some (JStr [])
         \<and> notesOf ps' (relative (cwd (\<lparr>workspaceRoot = ''/w'', cwd = ''/w''\<rparr>)) (workspaceRoot (\<lparr>workspaceRoot = ''/w'', cwd = ''/w''\<rparr>)) ''/w/x/y.ts'') =
               (if ([]::string) = [] then None
                else if relative (cwd (\<lparr>workspaceRoot = ''/w'', cwd = ''/w''\<rparr>)) (workspaceRoot (\<lparr>workspaceRoot = ''/w'', cwd = ''/w''\<rparr>)) ''/w/x/y.ts'' = ''__proto__''
                        \<and> notesOf ([(''contexts'', JObj [(''A'', JArr [JStr ''x/y.ts'', JStr ''x/z.ts''])]),
         (''notes'', JObj [(''x/y.ts'', JStr ''todo'')]),
         (''configs'', JObj [(''showFolders'', JBool True)])]) (relative (cwd (\<lparr>workspaceRoot = ''/w'', cwd = ''/w''\<rparr>)) (workspaceRoot (\<lparr>workspaceRoot = ''/w'', cwd = ''/w''\<rparr>)) ''/w/x/y.ts'') = None then None
                else Some (JStr ([]::string)))
         \<and> (\<forall>k. k \<noteq> relative (cwd (\<lparr>workspaceRoot = ''/w'', cwd = ''/w''\<rparr>)) (workspaceRoot (\<lparr>workspaceRoot = ''/w'', cwd = ''/w''\<rparr>)) ''/w/x/y.ts'' \<longrightarrow> notesOf ps' k = notesOf ([(''contexts'', JObj [(''A'', JArr [JStr ''x/y.ts'', JStr ''x/z.ts''])]),
         (''notes'', JObj [(''x/y.ts'', JStr ''todo'')]),
         (''configs'', JObj [(''showFolders'', JBool True)])]) k)
         \<and> ((\<forall>k. notesOf ([(''contexts'', JObj [(''A'', JArr [JStr ''x/y.ts'', JStr ''x/z.ts''])]),
         (''notes'', JObj [(''x/y.ts'', JStr ''todo'')]),
         (''configs'', JObj [(''showFolders'', JBool True)])]) k \<noteq> Some (JStr [])) \<longrightarrow> (\<forall>k. notesOf ps' k \<noteq> Some (JStr [])))
         \<and> (map_of ps' ''notes'' = None \<longleftrightarrow>
              ([]::string) = [] \<and> (\<forall>k. k \<noteq> relative (cwd (\<lparr>workspaceRoot = ''/w'', cwd = ''/w''\<rparr>)) (workspaceRoot (\<lparr>workspaceRoot = ''/w'', cwd = ''/w''\<rparr>)) ''/w/x/y.ts'' \<longrightarrow> notesOf ([(''contexts'', JObj [(''A'', JArr [JStr ''x/y.ts'', JStr ''x/z.ts''])]),
         (''notes'', JObj [(''x/y.ts'', JStr ''todo'')]),
         (''configs'', JObj [(''showFolders'', JBool True)])]) k = None)))
   \<and> addNoteToFileCommand \<lparr>workspaceRoot = ''/w'', cwd = ''/w''\<rparr>
     \<lparr>disk = Some \<lparr>content = ''{"contexts":{"A":["x/y.ts","x/z.ts"]},"notes":{"x/y.ts":"todo"},"configs":{"showFolders":true}}'',
      parsed = Inr (JObj
        [(''contexts'', JObj [(''A'', JArr [JStr ''x/y.ts'', JStr ''x/z.ts''])]),
         (''notes'', JObj [(''x/y.ts'', JStr ''todo'')]),
         (''configs'', JObj [(''showFolders'', JBool True)])])\<rparr>,
     writable = True, items = [], shown = [], executed = []\<rparr>
     ''/w/x/y.ts'' (Some []) =
   Finished
     \<lparr>disk = Some \<lparr>content = textOfLines
          [''{'',
           ''  "contexts": {'',
           ''    "A": ['',
           ''      "x/y.ts",'',
           ''      "x/z.ts"'',
           ''    ]'',
           ''  },'',
           ''  "configs": {'',
           ''    "showFolders": true'',
           ''  }'',
           ''}''],
      parsed = Inr (JObj
        [(''contexts'', JObj [(''A'', JArr [JStr ''x/y.ts'', JStr ''x/z.ts''])]),
         (''configs'', JObj [(''showFolders'', JBool True)])])\<rparr>,
     writable = True, items = [], shown = [InformationMessage ''Note removed''], executed = [''context-organizer.refresh'']\<rparr>\<close>
proof (rule conjI)
  show \<open>\<exists>ps'. addNoteToFileCommand (\<lparr>workspaceRoot = ''/w'', cwd = ''/w''\<rparr>) (\<lparr>disk = Some \<lparr>content = ''{"contexts":{"A":["x/y.ts","x/z.ts"]},"notes":{"x/y.ts":"todo"},"configs":{"showFolders":true}}'',
      parsed = Inr (JObj
        [(''contexts'', JObj [(''A'', JArr [JStr ''x/y.ts'', JStr ''x/z.ts''])]),
         (''notes'', JObj [(''x/y.ts'', JStr ''todo'')]),
         (''configs'', JObj [(''showFolders'', JBool True)])])\<rparr>,
     writable = True, items = [], shown = [], executed = []\<rparr>) ''/w/x/y.ts'' (Some ([]::string)) =
           Finished ((\<lparr>disk = Some \<lparr>content = ''{"contexts":{"A":["x/y.ts","x/z.ts"]},"notes":{"x/y.ts":"todo"},"configs":{"showFolders":true}}'',
      parsed = Inr (JObj
        [(''contexts'', JObj [(''A'', JArr [JStr ''x/y.ts'', JStr ''x/z.ts''])]),
         (''notes'', JObj [(''x/y.ts'', JStr ''todo'')]),
         (''configs'', JObj [(''showFolders'', JBool True)])])\<rparr>,
     writable = True, items = [], shown = [], executed = []\<rparr>)\<lparr>disk := Some \<lparr>content = stringify2 (JObj ps'), parsed = Inr (JObj ps')\<rparr>,
                       shown := shown (\<lparr>disk = Some \<lparr>content = ''{"contexts":{"A":["x/y.ts","x/z.ts"]},"notes":{"x/y.ts":"todo"},"configs":{"showFolders":true}}'',
      parsed = Inr (JObj
        [(''contexts'', JObj [(''A'', JArr [JStr ''x/y.ts'', JStr ''x/z.ts''])]),
         (''notes'', JObj [(''x/y.ts'', JStr ''todo'')]),
         (''configs'', JObj [(''showFolders'', JBool True)])])\<rparr>,
     writable = True, items = [], shown = [], executed = []\<rparr>) @ [InformationMessage (if ([]::string) = [] then ''Note removed'' else ''Note saved'')],
                       executed := executed (\<lparr>disk = Some \<lparr>content = ''{"contexts":{"A":["x/y.ts","x/z.ts"]},"notes":{"x/y.ts":"todo"},"configs":{"showFolders":true}}'',
      parsed = Inr (JObj
        [(''contexts'', JObj [(''A'', JArr [JStr ''x/y.ts'', JStr ''x/z.ts''])]),
         (''notes'', JObj [(''x/y.ts'', JStr ''todo'')]),
         (''configs'', JObj [(''showFolders'', JBool True)])])\<rparr>,
     writable = True, items = [], shown = [], executed = []\<rparr>) @ [''context-organizer.refresh'']\<rparr>)
         \<and> notesOf ps' (relative (cwd (\<lparr>workspaceRoot = ''/w'', cwd = ''/w''\<rparr>)) (workspaceRoot (\<lparr>workspaceRoot = ''/w'', cwd = ''/w''\<rparr>)) ''/w/x/y.ts'') \<noteq> Some (JStr [])
         \<and> notesOf ps' (relative (cwd (\<lparr>workspaceRoot = ''/w'', cwd = ''/w''\<rparr>)) (workspaceRoot (\<lparr>workspaceRoot = ''/w'', cwd = ''/w''\<rparr>)) ''/w/x/y.ts'') =
               (if ([]::string) = [] then None
                else if relative (cwd (\<lparr>workspaceRoot = ''/w'', cwd = ''/w''\<rparr>)) (workspaceRoot (\<lparr>workspaceRoot = ''/w'', cwd = ''/w''\<rparr>)) ''/w/x/y.ts'' = ''__proto__''
                        \<and> notesOf ([(''contexts'', JObj [(''A'', JArr [JStr ''x/y.ts'', JStr ''x/z.ts''])]),
         (''notes'', JObj [(''x/y.ts'', JStr ''todo'')]),
         (''configs'', JObj [(''showFolders'', JBool True)])]) (relative (cwd (\<lparr>workspaceRoot = ''/w'', cwd = ''/w''\<rparr>)) (workspaceRoot (\<lparr>workspaceRoot = ''/w'', cwd = ''/w''\<rparr>)) ''/w/x/y.ts'') = None then None
                else Some (JStr ([]::string)))
         \<and> (\<forall>k. k \<noteq> relative (cwd (\<lparr>workspaceRoot = ''/w'', cwd = ''/w''\<rparr>)) (workspaceRoot (\<lparr>workspaceRoot = ''/w'', cwd = ''/w''\<rparr>)) ''/w/x/y.ts'' \<longrightarrow> notesOf ps' k = notesOf ([(''contexts'', JObj [(''A'', JArr [JStr ''x/y.ts'', JStr ''x/z.ts''])]),
         (''notes'', JObj [(''x/y.ts'', JStr ''todo'')]),
         (''configs'', JObj [(''showFolders'', JBool True)])]) k)
         \<and> ((\<forall>k. notesOf ([(''contexts'', JObj [(''A'', JArr [JStr ''x/y.ts'', JStr ''x/z.ts''])]),
         (''notes'', JObj [(''x/y.ts'', JStr ''todo'')]),
         (''configs'', JObj [(''showFolders'', JBool True)])]) k \<noteq> Some (JStr [])) \<longrightarrow> (\<forall>k. notesOf ps' k \<noteq> Some (JStr [])))
         \<and> (map_of ps' ''notes'' = None \<longleftrightarrow>
              ([]::string) = [] \<and> (\<forall>k. k \<noteq> relative (cwd (\<lparr>workspaceRoot = ''/w'', cwd = ''/w''\<rparr>)) (workspaceRoot (\<lparr>workspaceRoot = ''/w'', cwd = ''/w''\<rparr>)) ''/w/x/y.ts'' \<longrightarrow> notesOf ([(''contexts'', JObj [(''A'', JArr [JStr ''x/y.ts'', JStr ''x/z.ts''])]),
         (''notes'', JObj [(''x/y.ts'', JStr ''todo'')]),
         (''configs'', JObj [(''showFolders'', JBool True)])]) k = None))\<close>
    by (rule target_note_entry_never_empty
        [of \<open>\<lparr>workspaceRoot = ''/w'', cwd = ''/w''\<rparr>\<close>
        \<open>\<lparr>disk = Some \<lparr>content = ''{"contexts":{"A":["x/y.ts","x/z.ts"]},"notes":{"x/y.ts":"todo"},"configs":{"showFolders":true}}'',
      parsed = Inr (JObj
        [(''contexts'', JObj [(''A'', JArr [JStr ''x/y.ts'', JStr ''x/z.ts''])]),
         (''notes'', JObj [(''x/y.ts'', JStr ''todo'')]),
         (''configs'', JObj [(''showFolders'', JBool True)])])\<rparr>,
     writable = True, items = [], shown = [], executed = []\<rparr>\<close>
        \<open>\<lparr>content = ''{"contexts":{"A":["x/y.ts","x/z.ts"]},"notes":{"x/y.ts":"todo"},"configs":{"showFolders":true}}'',
      parsed = Inr (JObj
        [(''contexts'', JObj [(''A'', JArr [JStr ''x/y.ts'', JStr ''x/z.ts''])]),
         (''notes'', JObj [(''x/y.ts'', JStr ''todo'')]),
         (''configs'', JObj [(''showFolders'', JBool True)])])\<rparr>\<close>
        \<open>[(''contexts'', JObj [(''A'', JArr [JStr ''x/y.ts'', JStr ''x/z.ts''])]),
         (''notes'', JObj [(''x/y.ts'', JStr ''todo'')]),
         (''configs'', JObj [(''showFolders'', JBool True)])]\<close>
        \<open>''/w/x/y.ts''\<close>
        "[]"])
       (simp_all add: notesUsable_def)
next
  have run: \<open>addNoteToFileCommand \<lparr>workspaceRoot = ''/w'', cwd = ''/w''\<rparr>
     \<lparr>disk = Some \<lparr>content = ''{"contexts":{"A":["x/y.ts","x/z.ts"]},"notes":{"x/y.ts":"todo"},"configs":{"showFolders":true}}'',
      parsed = Inr (JObj
        [(''contexts'', JObj [(''A'', JArr [JStr ''x/y.ts'', JStr ''x/z.ts''])]),
         (''notes'', JObj [(''x/y.ts'', JStr ''todo'')]),
         (''configs'', JObj [(''showFolders'', JBool True)])])\<rparr>,
     writable = True, items = [], shown = [], executed = []\<rparr>
     ''/w/x/y.ts'' (Some []) =
   Finished
     \<lparr>disk = Some \<lparr>content = stringify2 (JObj
          [(''contexts'', JObj [(''A'', JArr [JStr ''x/y.ts'', JStr ''x/z.ts''])]),
           (''configs'', JObj [(''showFolders'', JBool True)])]),
      parsed = Inr (JObj
        [(''contexts'', JObj [(''A'', JArr [JStr ''x/y.ts'', JStr ''x/z.ts''])]),
         (''configs'', JObj [(''showFolders'', JBool True)])])\<rparr>,
     writable = True, items = [], shown = [InformationMessage ''Note removed''], executed = [''context-organizer.refresh'']\<rparr>\<close>
    by (simp add: addNoteToFileCommand_def readConfig_def ensureNotes_def updateNotes_def
          writeBack_def assignProp_def deleteOwn_def propOf_def indexOfKey_def isDigit_def path_eval)
  have out: \<open>stringify2 (JObj
          [(''contexts'', JObj [(''A'', JArr [JStr ''x/y.ts'', JStr ''x/z.ts''])]),
           (''configs'', JObj [(''showFolders'', JBool True)])]) =
     textOfLines
          [''{'',
           ''  "contexts": {'',
           ''    "A": ['',
           ''      "x/y.ts",'',
           ''      "x/z.ts"'',
           ''    ]'',
           ''  },'',
           ''  "configs": {'',
           ''    "showFolders": true'',
           ''  }'',
           ''}'']\<close>
    by code_simp
  show \<open>addNoteToFileCommand \<lparr>workspaceRoot = ''/w'', cwd = ''/w''\<rparr>
     \<lparr>disk = Some \<lparr>content = ''{"contexts":{"A":["x/y.ts","x/z.ts"]},"notes":{"x/y.ts":"todo"},"configs":{"showFolders":true}}'',
      parsed = Inr (JObj
        [(''contexts'', JObj [(''A'', JArr [JStr ''x/y.ts'', JStr ''x/z.ts''])]),
         (''notes'', JObj [(''x/y.ts'', JStr ''todo'')]),
         (''configs'', JObj [(''showFolders'', JBool True)])])\<rparr>,
     writable = True, items = [], shown = [], executed = []\<rparr>
     ''/w/x/y.ts'' (Some []) =
   Finished
     \<lparr>disk = Some \<lparr>content = textOfLines
          [''{'',
           ''  "contexts": {'',
           ''    "A": ['',
           ''      "x/y.ts",'',
           ''      "x/z.ts"'',
           ''    ]'',
           ''  },'',
           ''  "configs": {'',
           ''    "showFolders": true'',
           ''  }'',
           ''}''],
      parsed = Inr (JObj
        [(''contexts'', JObj [(''A'', JArr [JStr ''x/y.ts'', JStr ''x/z.ts''])]),
         (''configs'', JObj [(''showFolders'', JBool True)])])\<rparr>,
     writable = True, items = [], shown = [InformationMessage ''Note removed''], executed = [''context-organizer.refresh'']\<rparr>\<close>
    by (simp only: run out)
qed

text \<open>
  The claim as first stated, no empty string in the notes of the document written, fails
  when the file read has one: with \<^verbatim>\<open>"a.ts": ""\<close> in the notes, a note saved for \<^verbatim>\<open>b.ts\<close>
  writes the empty entry of \<^verbatim>\<open>a.ts\<close> back.
\<close>

theorem empty_entry_of_other_file_persists:
  \<open>addNoteToFileCommand \<lparr>workspaceRoot = ''/w'', cwd = ''/w''\<rparr>
     \<lparr>disk = Some \<lparr>content = ''{"contexts":{"A":["a.ts","b.ts"]},"notes":{"a.ts":""},"configs":{"showFolders":true}}'',
      parsed = Inr (JObj
        [(''contexts'', JObj [(''A'', JArr [JStr ''a.ts'', JStr ''b.ts''])]),
         (''notes'', JObj [(''a.ts'', JStr '''')]),
         (''configs'', JObj [(''showFolders'', JBool True)])])\<rparr>,
     writable = True, items = [], shown = [], executed = []\<rparr>
     ''/w/b.ts'' (Some ''todo'') =
   Finished
     \<lparr>disk = Some \<lparr>content = textOfLines
          [''{'',
           ''  "contexts": {'',
           ''    "A": ['',
           ''      "a.ts",'',
           ''      "b.ts"'',
           ''    ]'',
           ''  },'',
           ''  "notes": {'',
           ''    "a.ts": "",'',
           ''    "b.ts": "todo"'',
           ''  },'',
           ''  "configs": {'',
           ''    "showFolders": true'',
           ''  }'',
           ''}''],
      parsed = Inr (JObj
        [(''contexts'', JObj [(''A'', JArr [JStr ''a.ts'', JStr ''b.ts''])]),
         (''notes'', JObj [(''a.ts'', JStr ''''), (''b.ts'', JStr ''todo'')]),
         (''configs'', JObj [(''showFolders'', JBool True)])])\<rparr>,
     writable = True, items = [], shown = [InformationMessage ''Note saved''], executed = [''context-organizer.refresh'']\<rparr>\<close>
proof -
  have run: \<open>addNoteToFileCommand \<lparr>workspaceRoot = ''/w'', cwd = ''/w''\<rparr>
     \<lparr>disk = Some \<lparr>content = ''{"contexts":{"A":["a.ts","b.ts"]},"notes":{"a.ts":""},"configs":{"showFolders":true}}'',
      parsed = Inr (JObj
        [(''contexts'', JObj [(''A'', JArr [JStr ''a.ts'', JStr ''b.ts''])]),
         (''notes'', JObj [(''a.ts'', JStr '''')]),
         (''configs'', JObj [(''showFolders'', JBool True)])])\<rparr>,
     writable = True, items = [], shown = [], executed = []\<rparr>
     ''/w/b.ts'' (Some ''todo'') =
   Finished
     \<lparr>disk = Some \<lparr>content = stringify2 (JObj
          [(''contexts'', JObj [(''A'', JArr [JStr ''a.ts'', JStr ''b.ts''])]),
           (''notes'', JObj [(''a.ts'', JStr ''''), (''b.ts'', JStr ''todo'')]),
           (''configs'', JObj [(''showFolders'', JBool True)])]),
      parsed = Inr (JObj
        [(''contexts'', JObj [(''A'', JArr [JStr ''a.ts'', JStr ''b.ts''])]),
         (''notes'', JObj [(''a.ts'', JStr ''''), (''b.ts'', JStr ''todo'')]),
         (''configs'', JObj [(''showFolders'', JBool True)])])\<rparr>,
     writable = True, items = [], shown = [InformationMessage ''Note saved''], executed = [''context-organizer.refresh'']\<rparr>\<close>
    by (simp add: addNoteToFileCommand_def readConfig_def ensureNotes_def updateNotes_def
          writeBack_def assignProp_def deleteOwn_def propOf_def indexOfKey_def isDigit_def path_eval)
  have out: \<open>stringify2 (JObj
          [(''contexts'', JObj [(''A'', JArr [JStr ''a.ts'', JStr ''b.ts''])]),
           (''notes'', JObj [(''a.ts'', JStr ''''), (''b.ts'', JStr ''todo'')]),
           (''configs'', JObj [(''showFolders'', JBool True)])]) =
     textOfLines
          [''{'',
           ''  "contexts": {'',
           ''    "A": ['',
           ''      "a.ts",'',
           ''      "b.ts"'',
           ''    ]'',
           ''  },'',
           ''  "notes": {'',
           ''    "a.ts": "",'',
           ''    "b.ts": "todo"'',
           ''  },'',
           ''  "configs": {'',
           ''    "showFolders": true'',
           ''  }'',
           ''}'']\<close>
    by code_simp
  show ?thesis
    by (simp only: run out)
qed
section \<open>Cancelling the prompt\<close>

text \<open>
  C5. With the prompt cancelled the command writes nothing and runs no refresh: the file
  on disk, the tree and the commands run are as before, whatever the file holds. When the
  prompt is reached (a workspace is open, the file exists and parses to an object or an
  array), the whole world is unchanged.
\<close>

theorem cancel_changes_nothing:
  "(\<exists>w'. (addNoteToFileCommand e w path None = Finished w'
            \<or> addNoteToFileCommand e w path None = Rejected TypeError w')
         \<and> disk w' = disk w \<and> writable w' = writable w \<and> items w' = items w
         \<and> executed w' = executed w)
   \<and> (workspaceRoot e \<noteq> [] \<and> disk w = Some f \<and> (parsed f = Inr (JObj ps) \<or> parsed f = Inr (JArr xs))
        \<longrightarrow> addNoteToFileCommand e w path None = Finished w)"
proof (intro conjI impI)
  show "\<exists>w'. (addNoteToFileCommand e w path None = Finished w'
            \<or> addNoteToFileCommand e w path None = Rejected TypeError w')
         \<and> disk w' = disk w \<and> writable w' = writable w \<and> items w' = items w
         \<and> executed w' = executed w"
  proof (cases "workspaceRoot e = []")
    case True
    then show ?thesis by (simp add: addNoteToFileCommand_def)
  next
    case root: False
    show ?thesis
    proof (cases "disk w")
      case None
      with root show ?thesis by (simp add: addNoteToFileCommand_def)
    next
      case (Some f')
      show ?thesis
      proof (cases "parsed f'")
        case (Inl msg)
        with root Some show ?thesis by (simp add: addNoteToFileCommand_def readConfig_def)
      next
        case (Inr config)
        with root Some show ?thesis
          by (cases config) (simp_all add: addNoteToFileCommand_def readConfig_def Let_def)
      qed
    qed
  qed
next
  assume "workspaceRoot e \<noteq> [] \<and> disk w = Some f \<and> (parsed f = Inr (JObj ps) \<or> parsed f = Inr (JArr xs))"
  then show "addNoteToFileCommand e w path None = Finished w"
    by (auto simp: addNoteToFileCommand_def readConfig_def Let_def)
qed

theorem cancel_witness:
  \<open>addNoteToFileCommand \<lparr>workspaceRoot = ''/w'', cwd = ''/w''\<rparr>
     \<lparr>disk = Some \<lparr>content = ''{"contexts":{"A":["x/y.ts","x/z.ts"]},"notes":{"x/y.ts":"todo"},"configs":{"showFolders":true}}'',
      parsed = Inr (JObj
      [(''contexts'', JObj [(''A'', JArr [JStr ''x/y.ts'', JStr ''x/z.ts''])]),
       (''notes'', JObj [(''x/y.ts'', JStr ''todo'')]),
       (''configs'', JObj [(''showFolders'', JBool True)])])\<rparr>,
     writable = True, items = [], shown = [], executed = []\<rparr>
     ''/w/x/y.ts'' None =
   Finished \<lparr>disk = Some \<lparr>content = ''{"contexts":{"A":["x/y.ts","x/z.ts"]},"notes":{"x/y.ts":"todo"},"configs":{"showFolders":true}}'',
      parsed = Inr (JObj
      [(''contexts'', JObj [(''A'', JArr [JStr ''x/y.ts'', JStr ''x/z.ts''])]),
       (''notes'', JObj [(''x/y.ts'', JStr ''todo'')]),
       (''configs'', JObj [(''showFolders'', JBool True)])])\<rparr>,
     writable = True, items = [], shown = [], executed = []\<rparr>\<close>
  using cancel_changes_nothing
    [of \<open>\<lparr>workspaceRoot = ''/w'', cwd = ''/w''\<rparr>\<close>
        \<open>\<lparr>disk = Some \<lparr>content = ''{"contexts":{"A":["x/y.ts","x/z.ts"]},"notes":{"x/y.ts":"todo"},"configs":{"showFolders":true}}'',
      parsed = Inr (JObj
      [(''contexts'', JObj [(''A'', JArr [JStr ''x/y.ts'', JStr ''x/z.ts''])]),
       (''notes'', JObj [(''x/y.ts'', JStr ''todo'')]),
       (''configs'', JObj [(''showFolders'', JBool True)])])\<rparr>,
     writable = True, items = [], shown = [], executed = []\<rparr>\<close>
        \<open>''/w/x/y.ts''\<close>
        \<open>\<lparr>content = ''{"contexts":{"A":["x/y.ts","x/z.ts"]},"notes":{"x/y.ts":"todo"},"configs":{"showFolders":true}}'',
      parsed = Inr (JObj
      [(''contexts'', JObj [(''A'', JArr [JStr ''x/y.ts'', JStr ''x/z.ts''])]),
       (''notes'', JObj [(''x/y.ts'', JStr ''todo'')]),
       (''configs'', JObj [(''showFolders'', JBool True)])])\<rparr>\<close>
        \<open>[(''contexts'', JObj [(''A'', JArr [JStr ''x/y.ts'', JStr ''x/z.ts''])]),
       (''notes'', JObj [(''x/y.ts'', JStr ''todo'')]),
       (''configs'', JObj [(''showFolders'', JBool True)])]\<close>]
  by simp


section \<open>Adding the same note twice\<close>

text \<open>
  C8. Two calls in a row for the same file with the same text, not empty and not cancelled:
  both calls write, and the file on disk after the second call is the file after the first.
  The first call stores the text as the note of the file (for the path \<^verbatim>\<open>__proto__\<close> without
  an entry of its own the assignment stores nothing, and the second call stores nothing
  again).
\<close>

theorem add_note_twice:
  assumes "workspaceRoot e \<noteq> []" and "disk w = Some f" and "parsed f = Inr (JObj ps)"
    and "notesUsable ps" and "writable w" and "note \<noteq> []"
  shows "\<exists>w1 w2 f1 ps1.
           addNoteToFileCommand e w path (Some note) = Finished w1
         \<and> addNoteToFileCommand e w1 path (Some note) = Finished w2
         \<and> disk w1 = Some f1 \<and> parsed f1 = Inr (JObj ps1)
         \<and> notesOf ps1 (relative (cwd e) (workspaceRoot e) path) =
               (if relative (cwd e) (workspaceRoot e) path = ''__proto__''
                   \<and> notesOf ps (relative (cwd e) (workspaceRoot e) path) = None then None
                else Some (JStr note))
         \<and> disk w2 = disk w1"
proof -
  let ?rel = "relative (cwd e) (workspaceRoot e) path"
  let ?ps1 = "updateNotes (ensureNotes ps) (notesEntries ps) ?rel note"
  let ?f1 = "\<lparr>content = stringify2 (JObj ?ps1), parsed = Inr (JObj ?ps1)\<rparr>"
  let ?w1 = "w\<lparr>disk := Some ?f1, shown := shown w @ [InformationMessage ''Note saved''],
               executed := executed w @ [''context-organizer.refresh'']\<rparr>"
  let ?w2 = "?w1\<lparr>disk := Some ?f1, shown := shown ?w1 @ [InformationMessage ''Note saved''],
               executed := executed ?w1 @ [''context-organizer.refresh'']\<rparr>"
  have first: "addNoteToFileCommand e w path (Some note) = Finished ?w1"
    using addNote_object[OF assms(1-4)] assms(5,6) by (simp add: writeBack_def)
  have d1: "disk ?w1 = Some ?f1" and p1: "parsed ?f1 = Inr (JObj ?ps1)" and wr: "writable ?w1"
    using assms(5) by simp_all
  have u1: "notesUsable ?ps1"
    using assms(6) by (rule updateNotes_usable)
  have "addNoteToFileCommand e ?w1 path (Some note) =
          writeBack ?w1 (JObj (updateNotes (ensureNotes ?ps1) (notesEntries ?ps1) ?rel note)) note"
    using assms(1) d1 p1 u1 by (rule addNote_object)
  also have "updateNotes (ensureNotes ?ps1) (notesEntries ?ps1) ?rel note = ?ps1"
    using assms(6) by (rule updateNotes_again)
  finally have second: "addNoteToFileCommand e ?w1 path (Some note) = Finished ?w2"
    using wr assms(6) by (simp add: writeBack_def)
  have n: "notesOf ?ps1 ?rel =
             (if ?rel = ''__proto__'' \<and> notesOf ps ?rel = None then None else Some (JStr note))"
    using assms(6) by (subst updateNotes_entries) (simp add: notesOf_def)
  have same: "disk ?w2 = disk ?w1" by simp
  from first second d1 p1 n same show ?thesis
    by (intro exI[of _ ?w1] exI[of _ ?w2] exI[of _ ?f1] exI[of _ ?ps1] conjI)
qed

text \<open>
  The theorem at a document without notes and the note \<^verbatim>\<open>todo\<close> for \<^verbatim>\<open>x/y.ts\<close>, with the two
  runs: the second call writes the text that the first call wrote.
\<close>

theorem add_note_twice_witness:
  \<open>(\<exists>w1 w2 f1 ps1.
           addNoteToFileCommand (\<lparr>workspaceRoot = ''/w'', cwd = ''/w''\<rparr>) (\<lparr>disk = Some \<lparr>content = ''{"contexts":{"A":["x/y.ts","x/z.ts"]},"configs":{"showFolders":true}}'',
      parsed = Inr (JObj
        [(''contexts'', JObj [(''A'', JArr [JStr ''x/y.ts'', JStr ''x/z.ts''])]),
         (''configs'', JObj [(''showFolders'', JBool True)])])\<rparr>,
     writable = True, items = [], shown = [], executed = []\<rparr>) ''/w/x/y.ts'' (Some (''todo''::string)) = Finished w1
         \<and> addNoteToFileCommand (\<lparr>workspaceRoot = ''/w'', cwd = ''/w''\<rparr>) w1 ''/w/x/y.ts'' (Some (''todo''::string)) = Finished w2
         \<and> disk w1 = Some f1 \<and> parsed f1 = Inr (JObj ps1)
         \<and> notesOf ps1 (relative (cwd (\<lparr>workspaceRoot = ''/w'', cwd = ''/w''\<rparr>)) (workspaceRoot (\<lparr>workspaceRoot = ''/w'', cwd = ''/w''\<rparr>)) ''/w/x/y.ts'') =
               (if relative (cwd (\<lparr>workspaceRoot = ''/w'', cwd = ''/w''\<rparr>)) (workspaceRoot (\<lparr>workspaceRoot = ''/w'', cwd = ''/w''\<rparr>)) ''/w/x/y.ts'' = ''__proto__''
                   \<and> notesOf ([(''contexts'', JObj [(''A'', JArr [JStr ''x/y.ts'', JStr ''x/z.ts''])]),
         (''configs'', JObj [(''showFolders'', JBool True)])]) (relative (cwd (\<lparr>workspaceRoot = ''/w'', cwd = ''/w''\<rparr>)) (workspaceRoot (\<lparr>workspaceRoot = ''/w'', cwd = ''/w''\<rparr>)) ''/w/x/y.ts'') = None then None
                else Some (JStr (''todo''::string)))
         \<and> disk w2 = disk w1)
   \<and> addNoteToFileCommand \<lparr>workspaceRoot = ''/w'', cwd = ''/w''\<rparr>
     \<lparr>disk = Some \<lparr>content = ''{"contexts":{"A":["x/y.ts","x/z.ts"]},"configs":{"showFolders":true}}'',
      parsed = Inr (JObj
        [(''contexts'', JObj [(''A'', JArr [JStr ''x/y.ts'', JStr ''x/z.ts''])]),
         (''configs'', JObj [(''showFolders'', JBool True)])])\<rparr>,
     writable = True, items = [], shown = [], executed = []\<rparr>
     ''/w/x/y.ts'' (Some ''todo'') =
   Finished
     \<lparr>disk = Some \<lparr>content = textOfLines
          [''{'',
           ''  "contexts": {'',
           ''    "A": ['',
           ''      "x/y.ts",'',
           ''      "x/z.ts"'',
           ''    ]'',
           ''  },'',
           ''  "configs": {'',
           ''    "showFolders": true'',
           ''  },'',
           ''  "notes": {'',
           ''    "x/y.ts": "todo"'',
           ''  }'',
           ''}''],
      parsed = Inr (JObj
        [(''contexts'', JObj [(''A'', JArr [JStr ''x/y.ts'', JStr ''x/z.ts''])]),
         (''configs'', JObj [(''showFolders'', JBool True)]),
         (''notes'', JObj [(''x/y.ts'', JStr ''todo'')])])\<rparr>,
     writable = True, items = [], shown = [InformationMessage ''Note saved''], executed = [''context-organizer.refresh'']\<rparr>
   \<and> addNoteToFileCommand \<lparr>workspaceRoot = ''/w'', cwd = ''/w''\<rparr>
     \<lparr>disk = Some \<lparr>content = textOfLines
          [''{'',
           ''  "contexts": {'',
           ''    "A": ['',
           ''      "x/y.ts",'',
           ''      "x/z.ts"'',
           ''    ]'',
           ''  },'',
           ''  "configs": {'',
           ''    "showFolders": true'',
           ''  },'',
           ''  "notes": {'',
           ''    "x/y.ts": "todo"'',
           ''  }'',
           ''}''],
      parsed = Inr (JObj
        [(''contexts'', JObj [(''A'', JArr [JStr ''x/y.ts'', JStr ''x/z.ts''])]),
         (''configs'', JObj [(''showFolders'', JBool True)]),
         (''notes'', JObj [(''x/y.ts'', JStr ''todo'')])])\<rparr>,
     writable = True, items = [], shown = [InformationMessage ''Note saved''], executed = [''context-organizer.refresh'']\<rparr>
     ''/w/x/y.ts'' (Some ''todo'') =
   Finished
     \<lparr>disk = Some \<lparr>content = textOfLines
          [''{'',
           ''  "contexts": {'',
           ''    "A": ['',
           ''      "x/y.ts",'',
           ''      "x/z.ts"'',
           ''    ]'',
           ''  },'',
           ''  "configs": {'',
           ''    "showFolders": true'',
           ''  },'',
           ''  "notes": {'',
           ''    "x/y.ts": "todo"'',
           ''  }'',
           ''}''],
      parsed = Inr (JObj
        [(''contexts'', JObj [(''A'', JArr [JStr ''x/y.ts'', JStr ''x/z.ts''])]),
         (''configs'', JObj [(''showFolders'', JBool True)]),
         (''notes'', JObj [(''x/y.ts'', JStr ''todo'')])])\<rparr>,
     writable = True, items = [], shown = [InformationMessage ''Note saved'', InformationMessage ''Note saved''], executed = [''context-organizer.refresh'', ''context-organizer.refresh'']\<rparr>\<close>
proof (intro conjI)
  show \<open>\<exists>w1 w2 f1 ps1.
           addNoteToFileCommand (\<lparr>workspaceRoot = ''/w'', cwd = ''/w''\<rparr>) (\<lparr>disk = Some \<lparr>content = ''{"contexts":{"A":["x/y.ts","x/z.ts"]},"configs":{"showFolders":true}}'',
      parsed = Inr (JObj
        [(''contexts'', JObj [(''A'', JArr [JStr ''x/y.ts'', JStr ''x/z.ts''])]),
         (''configs'', JObj [(''showFolders'', JBool True)])])\<rparr>,
     writable = True, items = [], shown = [], executed = []\<rparr>) ''/w/x/y.ts'' (Some (''todo''::string)) = Finished w1
         \<and> addNoteToFileCommand (\<lparr>workspaceRoot = ''/w'', cwd = ''/w''\<rparr>) w1 ''/w/x/y.ts'' (Some (''todo''::string)) = Finished w2
         \<and> disk w1 = Some f1 \<and> parsed f1 = Inr (JObj ps1)
         \<and> notesOf ps1 (relative (cwd (\<lparr>workspaceRoot = ''/w'', cwd = ''/w''\<rparr>)) (workspaceRoot (\<lparr>workspaceRoot = ''/w'', cwd = ''/w''\<rparr>)) ''/w/x/y.ts'') =
               (if relative (cwd (\<lparr>workspaceRoot = ''/w'', cwd = ''/w''\<rparr>)) (workspaceRoot (\<lparr>workspaceRoot = ''/w'', cwd = ''/w''\<rparr>)) ''/w/x/y.ts'' = ''__proto__''
                   \<and> notesOf ([(''contexts'', JObj [(''A'', JArr [JStr ''x/y.ts'', JStr ''x/z.ts''])]),
         (''configs'', JObj [(''showFolders'', JBool True)])]) (relative (cwd (\<lparr>workspaceRoot = ''/w'', cwd = ''/w''\<rparr>)) (workspaceRoot (\<lparr>workspaceRoot = ''/w'', cwd = ''/w''\<rparr>)) ''/w/x/y.ts'') = None then None
                else Some (JStr (''todo''::string)))
         \<and> disk w2 = disk w1\<close>
    by (rule add_note_twice
        [of \<open>\<lparr>workspaceRoot = ''/w'', cwd = ''/w''\<rparr>\<close>
        \<open>\<lparr>disk = Some \<lparr>content = ''{"contexts":{"A":["x/y.ts","x/z.ts"]},"configs":{"showFolders":true}}'',
      parsed = Inr (JObj
        [(''contexts'', JObj [(''A'', JArr [JStr ''x/y.ts'', JStr ''x/z.ts''])]),
         (''configs'', JObj [(''showFolders'', JBool True)])])\<rparr>,
     writable = True, items = [], shown = [], executed = []\<rparr>\<close>
        \<open>\<lparr>content = ''{"contexts":{"A":["x/y.ts","x/z.ts"]},"configs":{"showFolders":true}}'',
      parsed = Inr (JObj
        [(''contexts'', JObj [(''A'', JArr [JStr ''x/y.ts'', JStr ''x/z.ts''])]),
         (''configs'', JObj [(''showFolders'', JBool True)])])\<rparr>\<close>
        \<open>[(''contexts'', JObj [(''A'', JArr [JStr ''x/y.ts'', JStr ''x/z.ts''])]),
         (''configs'', JObj [(''showFolders'', JBool True)])]\<close>
        \<open>''todo''\<close>
        \<open>''/w/x/y.ts''\<close>])
       (simp_all add: notesUsable_def)
next
  have out: \<open>stringify2 (JObj
          [(''contexts'', JObj [(''A'', JArr [JStr ''x/y.ts'', JStr ''x/z.ts''])]),
           (''configs'', JObj [(''showFolders'', JBool True)]),
           (''notes'', JObj [(''x/y.ts'', JStr ''todo'')])]) =
     textOfLines
          [''{'',
           ''  "contexts": {'',
           ''    "A": ['',
           ''      "x/y.ts",'',
           ''      "x/z.ts"'',
           ''    ]'',
           ''  },'',
           ''  "configs": {'',
           ''    "showFolders": true'',
           ''  },'',
           ''  "notes": {'',
           ''    "x/y.ts": "todo"'',
           ''  }'',
           ''}'']\<close>
    by code_simp
  have run: \<open>addNoteToFileCommand \<lparr>workspaceRoot = ''/w'', cwd = ''/w''\<rparr>
     \<lparr>disk = Some \<lparr>content = ''{"contexts":{"A":["x/y.ts","x/z.ts"]},"configs":{"showFolders":true}}'',
      parsed = Inr (JObj
        [(''contexts'', JObj [(''A'', JArr [JStr ''x/y.ts'', JStr ''x/z.ts''])]),
         (''configs'', JObj [(''showFolders'', JBool True)])])\<rparr>,
     writable = True, items = [], shown = [], executed = []\<rparr>
     ''/w/x/y.ts'' (Some ''todo'') =
   Finished
     \<lparr>disk = Some \<lparr>content = stringify2 (JObj
          [(''contexts'', JObj [(''A'', JArr [JStr ''x/y.ts'', JStr ''x/z.ts''])]),
           (''configs'', JObj [(''showFolders'', JBool True)]),
           (''notes'', JObj [(''x/y.ts'', JStr ''todo'')])]),
      parsed = Inr (JObj
        [(''contexts'', JObj [(''A'', JArr [JStr ''x/y.ts'', JStr ''x/z.ts''])]),
         (''configs'', JObj [(''showFolders'', JBool True)]),
         (''notes'', JObj [(''x/y.ts'', JStr ''todo'')])])\<rparr>,
     writable = True, items = [], shown = [InformationMessage ''Note saved''], executed = [''context-organizer.refresh'']\<rparr>\<close>
    by (simp add: addNoteToFileCommand_def readConfig_def ensureNotes_def updateNotes_def
          writeBack_def assignProp_def deleteOwn_def propOf_def indexOfKey_def isDigit_def path_eval)
  show \<open>addNoteToFileCommand \<lparr>workspaceRoot = ''/w'', cwd = ''/w''\<rparr>
     \<lparr>disk = Some \<lparr>content = ''{"contexts":{"A":["x/y.ts","x/z.ts"]},"configs":{"showFolders":true}}'',
      parsed = Inr (JObj
        [(''contexts'', JObj [(''A'', JArr [JStr ''x/y.ts'', JStr ''x/z.ts''])]),
         (''configs'', JObj [(''showFolders'', JBool True)])])\<rparr>,
     writable = True, items = [], shown = [], executed = []\<rparr>
     ''/w/x/y.ts'' (Some ''todo'') =
   Finished
     \<lparr>disk = Some \<lparr>content = textOfLines
          [''{'',
           ''  "contexts": {'',
           ''    "A": ['',
           ''      "x/y.ts",'',
           ''      "x/z.ts"'',
           ''    ]'',
           ''  },'',
           ''  "configs": {'',
           ''    "showFolders": true'',
           ''  },'',
           ''  "notes": {'',
           ''    "x/y.ts": "todo"'',
           ''  }'',
           ''}''],
      parsed = Inr (JObj
        [(''contexts'', JObj [(''A'', JArr [JStr ''x/y.ts'', JStr ''x/z.ts''])]),
         (''configs'', JObj [(''showFolders'', JBool True)]),
         (''notes'', JObj [(''x/y.ts'', JStr ''todo'')])])\<rparr>,
     writable = True, items = [], shown = [InformationMessage ''Note saved''], executed = [''context-organizer.refresh'']\<rparr>\<close>
    by (simp only: run out)
  have again: \<open>addNoteToFileCommand \<lparr>workspaceRoot = ''/w'', cwd = ''/w''\<rparr>
     \<lparr>disk = Some \<lparr>content = textOfLines
          [''{'',
           ''  "contexts": {'',
           ''    "A": ['',
           ''      "x/y.ts",'',
           ''      "x/z.ts"'',
           ''    ]'',
           ''  },'',
           ''  "configs": {'',
           ''    "showFolders": true'',
           ''  },'',
           ''  "notes": {'',
           ''    "x/y.ts": "todo"'',
           ''  }'',
           ''}''],
      parsed = Inr (JObj
        [(''contexts'', JObj [(''A'', JArr [JStr ''x/y.ts'', JStr ''x/z.ts''])]),
         (''configs'', JObj [(''showFolders'', JBool True)]),
         (''notes'', JObj [(''x/y.ts'', JStr ''todo'')])])\<rparr>,
     writable = True, items = [], shown = [InformationMessage ''Note saved''], executed = [''context-organizer.refresh'']\<rparr>
     ''/w/x/y.ts'' (Some ''todo'') =
   Finished
     \<lparr>disk = Some \<lparr>content = stringify2 (JObj
          [(''contexts'', JObj [(''A'', JArr [JStr ''x/y.ts'', JStr ''x/z.ts''])]),
           (''configs'', JObj [(''showFolders'', JBool True)]),
           (''notes'', JObj [(''x/y.ts'', JStr ''todo'')])]),
      parsed = Inr (JObj
        [(''contexts'', JObj [(''A'', JArr [JStr ''x/y.ts'', JStr ''x/z.ts''])]),
         (''configs'', JObj [(''showFolders'', JBool True)]),
         (''notes'', JObj [(''x/y.ts'', JStr ''todo'')])])\<rparr>,
     writable = True, items = [], shown = [InformationMessage ''Note saved'', InformationMessage ''Note saved''], executed = [''context-organizer.refresh'', ''context-organizer.refresh'']\<rparr>\<close>
    by (simp add: addNoteToFileCommand_def readConfig_def ensureNotes_def updateNotes_def
          writeBack_def assignProp_def deleteOwn_def propOf_def indexOfKey_def isDigit_def path_eval)
  show \<open>addNoteToFileCommand \<lparr>workspaceRoot = ''/w'', cwd = ''/w''\<rparr>
     \<lparr>disk = Some \<lparr>content = textOfLines
          [''{'',
           ''  "contexts": {'',
           ''    "A": ['',
           ''      "x/y.ts",'',
           ''      "x/z.ts"'',
           ''    ]'',
           ''  },'',
           ''  "configs": {'',
           ''    "showFolders": true'',
           ''  },'',
           ''  "notes": {'',
           ''    "x/y.ts": "todo"'',
           ''  }'',
           ''}''],
      parsed = Inr (JObj
        [(''contexts'', JObj [(''A'', JArr [JStr ''x/y.ts'', JStr ''x/z.ts''])]),
         (''configs'', JObj [(''showFolders'', JBool True)]),
         (''notes'', JObj [(''x/y.ts'', JStr ''todo'')])])\<rparr>,
     writable = True, items = [], shown = [InformationMessage ''Note saved''], executed = [''context-organizer.refresh'']\<rparr>
     ''/w/x/y.ts'' (Some ''todo'') =
   Finished
     \<lparr>disk = Some \<lparr>content = textOfLines
          [''{'',
           ''  "contexts": {'',
           ''    "A": ['',
           ''      "x/y.ts",'',
           ''      "x/z.ts"'',
           ''    ]'',
           ''  },'',
           ''  "configs": {'',
           ''    "showFolders": true'',
           ''  },'',
           ''  "notes": {'',
           ''    "x/y.ts": "todo"'',
           ''  }'',
           ''}''],
      parsed = Inr (JObj
        [(''contexts'', JObj [(''A'', JArr [JStr ''x/y.ts'', JStr ''x/z.ts''])]),
         (''configs'', JObj [(''showFolders'', JBool True)]),
         (''notes'', JObj [(''x/y.ts'', JStr ''todo'')])])\<rparr>,
     writable = True, items = [], shown = [InformationMessage ''Note saved'', InformationMessage ''Note saved''], executed = [''context-organizer.refresh'', ''context-organizer.refresh'']\<rparr>\<close>
    by (simp only: again out)
qed

section \<open>An empty note for a file without a note\<close>

text \<open>
  C10. An empty string submitted for a file that has no note still writes the whole file
  again, as \<^verbatim>\<open>JSON.stringify(config, null, 2)\<close> prints it (an object without properties as
  \<^verbatim>\<open>{}\<close>, any other object with each property on a line of its own behind two spaces for
  each level), shows \<^verbatim>\<open>Note removed\<close> and runs the refresh. The document written has the
  properties and the notes of the document read; it has no \<^verbatim>\<open>notes\<close> key exactly when no
  file has a note (the notes map is missing or empty), and keeps the \<^verbatim>\<open>notes\<close> key when other
  files have notes.
\<close>

theorem empty_note_without_note_rewrites:
  assumes "workspaceRoot e \<noteq> []" and "disk w = Some f" and "parsed f = Inr (JObj ps)"
    and "notesUsable ps" and "writable w"
    and "notesOf ps (relative (cwd e) (workspaceRoot e) path) = None"
  shows "\<exists>ps'. addNoteToFileCommand e w path (Some []) =
           Finished (w\<lparr>disk := Some \<lparr>content = stringify2 (JObj ps'), parsed = Inr (JObj ps')\<rparr>,
                       shown := shown w @ [InformationMessage ''Note removed''],
                       executed := executed w @ [''context-organizer.refresh'']\<rparr>)
         \<and> (\<forall>k. k \<noteq> ''notes'' \<longrightarrow> map_of ps' k = map_of ps k)
         \<and> (\<forall>k. notesOf ps' k = notesOf ps k)
         \<and> (map_of ps' ''notes'' = None \<longleftrightarrow> (\<forall>k. notesOf ps k = None))
         \<and> (ps' = [] \<longrightarrow> stringify2 (JObj ps') = ''{}'')
         \<and> (ps' \<noteq> [] \<longrightarrow>
               take 5 (stringify2 (JObj ps')) = [CHR ''{'', CHR 0x0A, CHR '' '', CHR '' '', CHR 0x22])"
proof -
  let ?rel = "relative (cwd e) (workspaceRoot e) path"
  from addNote_result[OF assms(1-5), of path "[]"] obtain ps' where
    run: "addNoteToFileCommand e w path (Some []) =
           Finished (w\<lparr>disk := Some \<lparr>content = stringify2 (JObj ps'), parsed = Inr (JObj ps')\<rparr>,
                       shown := shown w @ [InformationMessage (if [] = ([]::string) then ''Note removed'' else ''Note saved'')],
                       executed := executed w @ [''context-organizer.refresh'']\<rparr>)"
    and a: "notesOf ps' ?rel =
               (if [] = ([]::string) then None
                else if ?rel = ''__proto__'' \<and> notesOf ps ?rel = None then None
                else Some (JStr []))"
    and b: "\<forall>k. k \<noteq> ?rel \<longrightarrow> notesOf ps' k = notesOf ps k"
    and d: "map_of ps' ''notes'' = None \<longleftrightarrow>
              [] = ([]::string) \<and> (\<forall>k. k \<noteq> ?rel \<longrightarrow> notesOf ps k = None)"
    and o: "\<forall>k. k \<noteq> ''notes'' \<longrightarrow> map_of ps' k = map_of ps k"
    by (elim exE conjE)
  have same: "\<forall>k. notesOf ps' k = notesOf ps k"
  proof
    fix k show "notesOf ps' k = notesOf ps k"
      using a b assms(6) by (cases "k = ?rel") simp_all
  qed
  have key: "map_of ps' ''notes'' = None \<longleftrightarrow> (\<forall>k. notesOf ps k = None)"
  proof -
    have "(\<forall>k. k \<noteq> ?rel \<longrightarrow> notesOf ps k = None) \<longleftrightarrow> (\<forall>k. notesOf ps k = None)"
      using assms(6) by metis
    with d show ?thesis by simp
  qed
  from run have run': "addNoteToFileCommand e w path (Some []) =
           Finished (w\<lparr>disk := Some \<lparr>content = stringify2 (JObj ps'), parsed = Inr (JObj ps')\<rparr>,
                       shown := shown w @ [InformationMessage ''Note removed''],
                       executed := executed w @ [''context-organizer.refresh'']\<rparr>)"
    by simp
  have none: "ps' = [] \<longrightarrow> stringify2 (JObj ps') = ''{}''"
    by (simp add: stringify2_def)
  have some: "ps' \<noteq> [] \<longrightarrow>
               take 5 (stringify2 (JObj ps')) = [CHR ''{'', CHR 0x0A, CHR '' '', CHR '' '', CHR 0x22]"
    using stringify2_starts[of ps'] by (rule impI)
  from run' o same key none some show ?thesis
    by (intro exI[of _ ps'] conjI)
qed

text \<open>
  The theorem at a document without \<^verbatim>\<open>notes\<close>, and the file that is written: the document
  again, without \<^verbatim>\<open>notes\<close>, two spaces deeper at each level.
\<close>

theorem empty_note_witness:
  \<open>(\<exists>ps'. addNoteToFileCommand (\<lparr>workspaceRoot = ''/w'', cwd = ''/w''\<rparr>) (\<lparr>disk = Some \<lparr>content = ''{"contexts":{"A":["x/y.ts","x/z.ts"]},"configs":{"showFolders":true}}'',
      parsed = Inr (JObj
        [(''contexts'', JObj [(''A'', JArr [JStr ''x/y.ts'', JStr ''x/z.ts''])]),
         (''configs'', JObj [(''showFolders'', JBool True)])])\<rparr>,
     writable = True, items = [], shown = [], executed = []\<rparr>) ''/w/x/y.ts'' (Some []) =
           Finished ((\<lparr>disk = Some \<lparr>content = ''{"contexts":{"A":["x/y.ts","x/z.ts"]},"configs":{"showFolders":true}}'',
      parsed = Inr (JObj
        [(''contexts'', JObj [(''A'', JArr [JStr ''x/y.ts'', JStr ''x/z.ts''])]),
         (''configs'', JObj [(''showFolders'', JBool True)])])\<rparr>,
     writable = True, items = [], shown = [], executed = []\<rparr>)\<lparr>disk := Some \<lparr>content = stringify2 (JObj ps'), parsed = Inr (JObj ps')\<rparr>,
                       shown := shown (\<lparr>disk = Some \<lparr>content = ''{"contexts":{"A":["x/y.ts","x/z.ts"]},"configs":{"showFolders":true}}'',
      parsed = Inr (JObj
        [(''contexts'', JObj [(''A'', JArr [JStr ''x/y.ts'', JStr ''x/z.ts''])]),
         (''configs'', JObj [(''showFolders'', JBool True)])])\<rparr>,
     writable = True, items = [], shown = [], executed = []\<rparr>) @ [InformationMessage ''Note removed''],
                       executed := executed (\<lparr>disk = Some \<lparr>content = ''{"contexts":{"A":["x/y.ts","x/z.ts"]},"configs":{"showFolders":true}}'',
      parsed = Inr (JObj
        [(''contexts'', JObj [(''A'', JArr [JStr ''x/y.ts'', JStr ''x/z.ts''])]),
         (''configs'', JObj [(''showFolders'', JBool True)])])\<rparr>,
     writable = True, items = [], shown = [], executed = []\<rparr>) @ [''context-organizer.refresh'']\<rparr>)
         \<and> (\<forall>k. k \<noteq> ''notes'' \<longrightarrow> map_of ps' k = map_of ([(''contexts'', JObj [(''A'', JArr [JStr ''x/y.ts'', JStr ''x/z.ts''])]),
         (''configs'', JObj [(''showFolders'', JBool True)])]) k)
         \<and> (\<forall>k. notesOf ps' k = notesOf ([(''contexts'', JObj [(''A'', JArr [JStr ''x/y.ts'', JStr ''x/z.ts''])]),
         (''configs'', JObj [(''showFolders'', JBool True)])]) k)
         \<and> (map_of ps' ''notes'' = None \<longleftrightarrow> (\<forall>k. notesOf ([(''contexts'', JObj [(''A'', JArr [JStr ''x/y.ts'', JStr ''x/z.ts''])]),
         (''configs'', JObj [(''showFolders'', JBool True)])]) k = None))
         \<and> (ps' = [] \<longrightarrow> stringify2 (JObj ps') = ''{}'')
         \<and> (ps' \<noteq> [] \<longrightarrow>
               take 5 (stringify2 (JObj ps')) = [CHR ''{'', CHR 0x0A, CHR '' '', CHR '' '', CHR 0x22]))
   \<and> addNoteToFileCommand \<lparr>workspaceRoot = ''/w'', cwd = ''/w''\<rparr>
     \<lparr>disk = Some \<lparr>content = ''{"contexts":{"A":["x/y.ts","x/z.ts"]},"configs":{"showFolders":true}}'',
      parsed = Inr (JObj
        [(''contexts'', JObj [(''A'', JArr [JStr ''x/y.ts'', JStr ''x/z.ts''])]),
         (''configs'', JObj [(''showFolders'', JBool True)])])\<rparr>,
     writable = True, items = [], shown = [], executed = []\<rparr>
     ''/w/x/y.ts'' (Some []) =
   Finished
     \<lparr>disk = Some \<lparr>content = textOfLines
          [''{'',
           ''  "contexts": {'',
           ''    "A": ['',
           ''      "x/y.ts",'',
           ''      "x/z.ts"'',
           ''    ]'',
           ''  },'',
           ''  "configs": {'',
           ''    "showFolders": true'',
           ''  }'',
           ''}''],
      parsed = Inr (JObj
        [(''contexts'', JObj [(''A'', JArr [JStr ''x/y.ts'', JStr ''x/z.ts''])]),
         (''configs'', JObj [(''showFolders'', JBool True)])])\<rparr>,
     writable = True, items = [], shown = [InformationMessage ''Note removed''], executed = [''context-organizer.refresh'']\<rparr>\<close>
proof (rule conjI)
  show \<open>\<exists>ps'. addNoteToFileCommand (\<lparr>workspaceRoot = ''/w'', cwd = ''/w''\<rparr>) (\<lparr>disk = Some \<lparr>content = ''{"contexts":{"A":["x/y.ts","x/z.ts"]},"configs":{"showFolders":true}}'',
      parsed = Inr (JObj
        [(''contexts'', JObj [(''A'', JArr [JStr ''x/y.ts'', JStr ''x/z.ts''])]),
         (''configs'', JObj [(''showFolders'', JBool True)])])\<rparr>,
     writable = True, items = [], shown = [], executed = []\<rparr>) ''/w/x/y.ts'' (Some []) =
           Finished ((\<lparr>disk = Some \<lparr>content = ''{"contexts":{"A":["x/y.ts","x/z.ts"]},"configs":{"showFolders":true}}'',
      parsed = Inr (JObj
        [(''contexts'', JObj [(''A'', JArr [JStr ''x/y.ts'', JStr ''x/z.ts''])]),
         (''configs'', JObj [(''showFolders'', JBool True)])])\<rparr>,
     writable = True, items = [], shown = [], executed = []\<rparr>)\<lparr>disk := Some \<lparr>content = stringify2 (JObj ps'), parsed = Inr (JObj ps')\<rparr>,
                       shown := shown (\<lparr>disk = Some \<lparr>content = ''{"contexts":{"A":["x/y.ts","x/z.ts"]},"configs":{"showFolders":true}}'',
      parsed = Inr (JObj
        [(''contexts'', JObj [(''A'', JArr [JStr ''x/y.ts'', JStr ''x/z.ts''])]),
         (''configs'', JObj [(''showFolders'', JBool True)])])\<rparr>,
     writable = True, items = [], shown = [], executed = []\<rparr>) @ [InformationMessage ''Note removed''],
                       executed := executed (\<lparr>disk = Some \<lparr>content = ''{"contexts":{"A":["x/y.ts","x/z.ts"]},"configs":{"showFolders":true}}'',
      parsed = Inr (JObj
        [(''contexts'', JObj [(''A'', JArr [JStr ''x/y.ts'', JStr ''x/z.ts''])]),
         (''configs'', JObj [(''showFolders'', JBool True)])])\<rparr>,
     writable = True, items = [], shown = [], executed = []\<rparr>) @ [''context-organizer.refresh'']\<rparr>)
         \<and> (\<forall>k. k \<noteq> ''notes'' \<longrightarrow> map_of ps' k = map_of ([(''contexts'', JObj [(''A'', JArr [JStr ''x/y.ts'', JStr ''x/z.ts''])]),
         (''configs'', JObj [(''showFolders'', JBool True)])]) k)
         \<and> (\<forall>k. notesOf ps' k = notesOf ([(''contexts'', JObj [(''A'', JArr [JStr ''x/y.ts'', JStr ''x/z.ts''])]),
         (''configs'', JObj [(''showFolders'', JBool True)])]) k)
         \<and> (map_of ps' ''notes'' = None \<longleftrightarrow> (\<forall>k. notesOf ([(''contexts'', JObj [(''A'', JArr [JStr ''x/y.ts'', JStr ''x/z.ts''])]),
         (''configs'', JObj [(''showFolders'', JBool True)])]) k = None))
         \<and> (ps' = [] \<longrightarrow> stringify2 (JObj ps') = ''{}'')
         \<and> (ps' \<noteq> [] \<longrightarrow>
               take 5 (stringify2 (JObj ps')) = [CHR ''{'', CHR 0x0A, CHR '' '', CHR '' '', CHR 0x22])\<close>
    by (rule empty_note_without_note_rewrites
        [of \<open>\<lparr>workspaceRoot = ''/w'', cwd = ''/w''\<rparr>\<close>
        \<open>\<lparr>disk = Some \<lparr>content = ''{"contexts":{"A":["x/y.ts","x/z.ts"]},"configs":{"showFolders":true}}'',
      parsed = Inr (JObj
        [(''contexts'', JObj [(''A'', JArr [JStr ''x/y.ts'', JStr ''x/z.ts''])]),
         (''configs'', JObj [(''showFolders'', JBool True)])])\<rparr>,
     writable = True, items = [], shown = [], executed = []\<rparr>\<close>
        \<open>\<lparr>content = ''{"contexts":{"A":["x/y.ts","x/z.ts"]},"configs":{"showFolders":true}}'',
      parsed = Inr (JObj
        [(''contexts'', JObj [(''A'', JArr [JStr ''x/y.ts'', JStr ''x/z.ts''])]),
         (''configs'', JObj [(''showFolders'', JBool True)])])\<rparr>\<close>
        \<open>[(''contexts'', JObj [(''A'', JArr [JStr ''x/y.ts'', JStr ''x/z.ts''])]),
         (''configs'', JObj [(''showFolders'', JBool True)])]\<close>
        \<open>''/w/x/y.ts''\<close>])
       (simp_all add: notesUsable_def notesOf_def notesEntries_def)
next
  have run: \<open>addNoteToFileCommand \<lparr>workspaceRoot = ''/w'', cwd = ''/w''\<rparr>
     \<lparr>disk = Some \<lparr>content = ''{"contexts":{"A":["x/y.ts","x/z.ts"]},"configs":{"showFolders":true}}'',
      parsed = Inr (JObj
        [(''contexts'', JObj [(''A'', JArr [JStr ''x/y.ts'', JStr ''x/z.ts''])]),
         (''configs'', JObj [(''showFolders'', JBool True)])])\<rparr>,
     writable = True, items = [], shown = [], executed = []\<rparr>
     ''/w/x/y.ts'' (Some []) =
   Finished
     \<lparr>disk = Some \<lparr>content = stringify2 (JObj
          [(''contexts'', JObj [(''A'', JArr [JStr ''x/y.ts'', JStr ''x/z.ts''])]),
           (''configs'', JObj [(''showFolders'', JBool True)])]),
      parsed = Inr (JObj
        [(''contexts'', JObj [(''A'', JArr [JStr ''x/y.ts'', JStr ''x/z.ts''])]),
         (''configs'', JObj [(''showFolders'', JBool True)])])\<rparr>,
     writable = True, items = [], shown = [InformationMessage ''Note removed''], executed = [''context-organizer.refresh'']\<rparr>\<close>
    by (simp add: addNoteToFileCommand_def readConfig_def ensureNotes_def updateNotes_def
          writeBack_def assignProp_def deleteOwn_def propOf_def indexOfKey_def isDigit_def path_eval)
  have out: \<open>stringify2 (JObj
          [(''contexts'', JObj [(''A'', JArr [JStr ''x/y.ts'', JStr ''x/z.ts''])]),
           (''configs'', JObj [(''showFolders'', JBool True)])]) =
     textOfLines
          [''{'',
           ''  "contexts": {'',
           ''    "A": ['',
           ''      "x/y.ts",'',
           ''      "x/z.ts"'',
           ''    ]'',
           ''  },'',
           ''  "configs": {'',
           ''    "showFolders": true'',
           ''  }'',
           ''}'']\<close>
    by code_simp
  show \<open>addNoteToFileCommand \<lparr>workspaceRoot = ''/w'', cwd = ''/w''\<rparr>
     \<lparr>disk = Some \<lparr>content = ''{"contexts":{"A":["x/y.ts","x/z.ts"]},"configs":{"showFolders":true}}'',
      parsed = Inr (JObj
        [(''contexts'', JObj [(''A'', JArr [JStr ''x/y.ts'', JStr ''x/z.ts''])]),
         (''configs'', JObj [(''showFolders'', JBool True)])])\<rparr>,
     writable = True, items = [], shown = [], executed = []\<rparr>
     ''/w/x/y.ts'' (Some []) =
   Finished
     \<lparr>disk = Some \<lparr>content = textOfLines
          [''{'',
           ''  "contexts": {'',
           ''    "A": ['',
           ''      "x/y.ts",'',
           ''      "x/z.ts"'',
           ''    ]'',
           ''  },'',
           ''  "configs": {'',
           ''    "showFolders": true'',
           ''  }'',
           ''}''],
      parsed = Inr (JObj
        [(''contexts'', JObj [(''A'', JArr [JStr ''x/y.ts'', JStr ''x/z.ts''])]),
         (''configs'', JObj [(''showFolders'', JBool True)])])\<rparr>,
     writable = True, items = [], shown = [InformationMessage ''Note removed''], executed = [''context-organizer.refresh'']\<rparr>\<close>
    by (simp only: run out)
qed

text \<open>
  The claim as first stated, no \<^verbatim>\<open>notes\<close> key in the written document, fails when another
  file has a note: the note of \<^verbatim>\<open>x/z.ts\<close> is written back under its \<^verbatim>\<open>notes\<close> key.
\<close>

theorem empty_note_keeps_other_notes:
  \<open>addNoteToFileCommand \<lparr>workspaceRoot = ''/w'', cwd = ''/w''\<rparr>
     \<lparr>disk = Some \<lparr>content = ''{"contexts":{"A":["x/y.ts","x/z.ts"]},"notes":{"x/z.ts":"keep"},"configs":{"showFolders":true}}'',
      parsed = Inr (JObj
        [(''contexts'', JObj [(''A'', JArr [JStr ''x/y.ts'', JStr ''x/z.ts''])]),
         (''notes'', JObj [(''x/z.ts'', JStr ''keep'')]),
         (''configs'', JObj [(''showFolders'', JBool True)])])\<rparr>,
     writable = True, items = [], shown = [], executed = []\<rparr>
     ''/w/x/y.ts'' (Some []) =
   Finished
     \<lparr>disk = Some \<lparr>content = textOfLines
          [''{'',
           ''  "contexts": {'',
           ''    "A": ['',
           ''      "x/y.ts",'',
           ''      "x/z.ts"'',
           ''    ]'',
           ''  },'',
           ''  "notes": {'',
           ''    "x/z.ts": "keep"'',
           ''  },'',
           ''  "configs": {'',
           ''    "showFolders": true'',
           ''  }'',
           ''}''],
      parsed = Inr (JObj
        [(''contexts'', JObj [(''A'', JArr [JStr ''x/y.ts'', JStr ''x/z.ts''])]),
         (''notes'', JObj [(''x/z.ts'', JStr ''keep'')]),
         (''configs'', JObj [(''showFolders'', JBool True)])])\<rparr>,
     writable = True, items = [], shown = [InformationMessage ''Note removed''], executed = [''context-organizer.refresh'']\<rparr>\<close>
proof -
  have run: \<open>addNoteToFileCommand \<lparr>workspaceRoot = ''/w'', cwd = ''/w''\<rparr>
     \<lparr>disk = Some \<lparr>content = ''{"contexts":{"A":["x/y.ts","x/z.ts"]},"notes":{"x/z.ts":"keep"},"configs":{"showFolders":true}}'',
      parsed = Inr (JObj
        [(''contexts'', JObj [(''A'', JArr [JStr ''x/y.ts'', JStr ''x/z.ts''])]),
         (''notes'', JObj [(''x/z.ts'', JStr ''keep'')]),
         (''configs'', JObj [(''showFolders'', JBool True)])])\<rparr>,
     writable = True, items = [], shown = [], executed = []\<rparr>
     ''/w/x/y.ts'' (Some []) =
   Finished
     \<lparr>disk = Some \<lparr>content = stringify2 (JObj
          [(''contexts'', JObj [(''A'', JArr [JStr ''x/y.ts'', JStr ''x/z.ts''])]),
           (''notes'', JObj [(''x/z.ts'', JStr ''keep'')]),
           (''configs'', JObj [(''showFolders'', JBool True)])]),
      parsed = Inr (JObj
        [(''contexts'', JObj [(''A'', JArr [JStr ''x/y.ts'', JStr ''x/z.ts''])]),
         (''notes'', JObj [(''x/z.ts'', JStr ''keep'')]),
         (''configs'', JObj [(''showFolders'', JBool True)])])\<rparr>,
     writable = True, items = [], shown = [InformationMessage ''Note removed''], executed = [''context-organizer.refresh'']\<rparr>\<close>
    by (simp add: addNoteToFileCommand_def readConfig_def ensureNotes_def updateNotes_def
          writeBack_def assignProp_def deleteOwn_def propOf_def indexOfKey_def isDigit_def path_eval)
  have out: \<open>stringify2 (JObj
          [(''contexts'', JObj [(''A'', JArr [JStr ''x/y.ts'', JStr ''x/z.ts''])]),
           (''notes'', JObj [(''x/z.ts'', JStr ''keep'')]),
           (''configs'', JObj [(''showFolders'', JBool True)])]) =
     textOfLines
          [''{'',
           ''  "contexts": {'',
           ''    "A": ['',
           ''      "x/y.ts",'',
           ''      "x/z.ts"'',
           ''    ]'',
           ''  },'',
           ''  "notes": {'',
           ''    "x/z.ts": "keep"'',
           ''  },'',
           ''  "configs": {'',
           ''    "showFolders": true'',
           ''  }'',
           ''}'']\<close>
    by code_simp
  show ?thesis
    by (simp only: run out)
qed

end
